theory Spec2Isabelle
  imports Complex_Main "HOL-Library.AList" "HOL-Library.Multiset"
begin

section \<open>Errors\<close>

text \<open>
  Every exception the modelled code can raise is a value of \<open>error\<close>; a computation
  that may raise returns \<open>error + 'a\<close>, with \<open>Inl\<close> for the exception.
  \<open>HTTPError s\<close> is what \<^verbatim>\<open>Response.raise_for_status()\<close> raises for the status \<open>s\<close>,
  \<open>ConnectionError\<close> stands for a failure of the HTTP transport itself.
\<close>

datatype error =
    StoreNotInitializedError
  | IndexError
  | KeyError
  | ValueError
  | AttributeError
  | ZeroDivisionError
  | TypeError
  | JSONDecodeError
  | ConnectionError
  | HTTPError nat

section \<open>Numbers and their formatting\<close>

text \<open>
  The JSON numbers of a portfolio (\<^verbatim>\<open>invested\<close>, \<^verbatim>\<open>marketvalue\<close>) are Python ints or
  floats. Both are modelled by \<open>real\<close> with exact arithmetic: the rounding error of
  binary floating point, infinities and NaN are outside the model.
  \<open>py_int\<close> is \<^verbatim>\<open>int(x)\<close> (truncation towards zero), \<open>py_round\<close> is \<^verbatim>\<open>round(x)\<close>
  (to the nearest integer, a tie to the even one).
\<close>

definition py_int :: "real \<Rightarrow> int" where
  "py_int x = (if 0 \<le> x then \<lfloor>x\<rfloor> else \<lceil>x\<rceil>)"

definition py_round :: "real \<Rightarrow> int" where
  "py_round x =
     (let f = \<lfloor>x\<rfloor>; d = x - of_int f in
      if d < 1 / 2 then f else if 1 / 2 < d then f + 1 else if even f then f else f + 1)"

definition digit :: "nat \<Rightarrow> char" where
  "digit d = ''0123456789'' ! d"

text \<open>The decimal digits of a natural number, and \<^verbatim>\<open>str(i)\<close> of an int.\<close>

fun str_nat :: "nat \<Rightarrow> string" where
  "str_nat n = (if n < 10 then [digit n] else str_nat (n div 10) @ [digit (n mod 10)])"

declare str_nat.simps [simp del]

definition str_int :: "int \<Rightarrow> string" where
  "str_int i = (if i < 0 then CHR ''-'' # str_nat (nat (- i)) else str_nat (nat i))"

text \<open>
  The format \<^verbatim>\<open>f"{i:,}"\<close> of an int: its digits in groups of three from the right,
  separated by commas, after the sign.
\<close>

fun group_thousands :: "string \<Rightarrow> string" where
  "group_thousands ds =
     (if length ds \<le> 3 then ds
      else group_thousands (take (length ds - 3) ds) @ CHR '','' # drop (length ds - 3) ds)"

declare group_thousands.simps [simp del]

definition format_int_commas :: "int \<Rightarrow> string" where
  "format_int_commas i =
     (if i < 0 then CHR ''-'' # group_thousands (str_nat (nat (- i)))
      else group_thousands (str_nat (nat i)))"

text \<open>
  The format \<^verbatim>\<open>f"{x:.1f}"\<close>: the value rounded to one decimal place (a tie to the even
  digit), written with its integer part, a point and one digit.
\<close>

definition format_1f :: "real \<Rightarrow> string" where
  "format_1f x =
     (let t = nat (py_round (\<bar>x\<bar> * 10)) in
      (if x < 0 then ''-'' else '''') @ str_nat (t div 10) @ ''.'' @ [digit (t mod 10)])"

section \<open>JSON file storage and the portfolio history store\<close>

record porto_item =
  id' :: int
  invested :: real
  marketvalue :: real
  name :: string

type_synonym snapshot = "porto_item list"

record entry =
  timestamp :: int
  portofolios :: snapshot

text \<open>
  The history files on disk: an association list from a path to the JSON document the
  file holds (a list of history entries). A path that is not a key is a file that does
  not exist. \<^verbatim>\<open>json.dump\<close> to a path replaces the document, or creates the file.
\<close>

type_synonym filesystem = "(string \<times> entry list) list"

definition JSONFileStorage_load :: "string \<Rightarrow> filesystem \<Rightarrow> error + entry list" where
  "JSONFileStorage_load filename fs =
     (case map_of fs filename of
        None \<Rightarrow> Inl StoreNotInitializedError
      | Some content \<Rightarrow> Inr content)"

definition JSONFileStorage_dump :: "string \<Rightarrow> entry list \<Rightarrow> filesystem \<Rightarrow> filesystem" where
  "JSONFileStorage_dump filename content fs = AList.update filename content fs"

record PortofolioHistoryStore =
  storage :: string
  history :: "entry list"

definition PortofolioHistoryStore_init :: "string \<Rightarrow> filesystem \<Rightarrow> error + PortofolioHistoryStore" where
  "PortofolioHistoryStore_init filename fs =
     (case JSONFileStorage_load filename fs of
        Inr content \<Rightarrow> Inr \<lparr>storage = filename, history = content\<rparr>
      | Inl StoreNotInitializedError \<Rightarrow> Inr \<lparr>storage = filename, history = []\<rparr>
      | Inl e \<Rightarrow> Inl e)"

definition PortofolioHistoryStore_save :: "PortofolioHistoryStore \<Rightarrow> filesystem \<Rightarrow> filesystem" where
  "PortofolioHistoryStore_save st fs = JSONFileStorage_dump (storage st) (history st) fs"

text \<open>\<open>now\<close> is the value of \<^verbatim>\<open>int(time.time())\<close> at the call.\<close>

definition PortofolioHistoryStore_add ::
  "int \<Rightarrow> snapshot \<Rightarrow> PortofolioHistoryStore \<Rightarrow> filesystem \<Rightarrow> PortofolioHistoryStore \<times> filesystem" where
  "PortofolioHistoryStore_add now snap st fs =
     (let st' = st\<lparr>history := history st @ [\<lparr>timestamp = now, portofolios = snap\<rparr>]\<rparr>
      in (st', PortofolioHistoryStore_save st' fs))"

text \<open>\<^verbatim>\<open>xs[-1]\<close> raises IndexError on the empty list.\<close>

definition py_last :: "'a list \<Rightarrow> error + 'a" where
  "py_last xs = (if xs = [] then Inl IndexError else Inr (last xs))"

definition PortofolioHistoryStore_get_last :: "PortofolioHistoryStore \<Rightarrow> error + snapshot" where
  "PortofolioHistoryStore_get_last st =
     (case py_last (history st) of
        Inr l \<Rightarrow> Inr (portofolios l)
      | Inl IndexError \<Rightarrow> Inr []
      | Inl e \<Rightarrow> Inl e)"

section \<open>The rolling file repository\<close>

text \<open>
  \<^verbatim>\<open>os.path.join(a, b)\<close> on a POSIX system: an absolute \<open>b\<close> replaces \<open>a\<close>, otherwise
  the two are joined by one slash unless \<open>a\<close> is empty or ends in a slash.
\<close>

definition path_join :: "string \<Rightarrow> string \<Rightarrow> string" where
  "path_join a b =
     (if b \<noteq> [] \<and> hd b = CHR ''/'' then b
      else if a = [] \<or> last a = CHR ''/'' then a @ b
      else a @ CHR ''/'' # b)"

record RollingJSONFileRepository =
  directory :: string
  file_prefix' :: string
  last_idx :: int

definition get_filename :: "RollingJSONFileRepository \<Rightarrow> int \<Rightarrow> string" where
  "get_filename repo idx =
     path_join (directory repo) (file_prefix' repo @ ''.'' @ str_int idx @ ''.json'')"

text \<open>\<^verbatim>\<open>s.split(c)\<close> for a one-character separator.\<close>

fun split_on :: "char \<Rightarrow> string \<Rightarrow> string list" where
  "split_on c [] = [[]]"
| "split_on c (x # xs) =
     (if x = c then [] # split_on c xs
      else (case split_on c xs of
              [] \<Rightarrow> [[x]]
            | w # ws \<Rightarrow> (x # w) # ws))"

text \<open>
  \<^verbatim>\<open>int(s)\<close> of a string, for ASCII input: white space around the number is dropped,
  a sign may come first, and the digits may be separated by single underscores.
  Everything else raises ValueError.
\<close>

definition is_space :: "char \<Rightarrow> bool" where
  "is_space c \<longleftrightarrow>
     c \<in> set [CHR 0x09, CHR 0x0A, CHR 0x0B, CHR 0x0C, CHR 0x0D, CHR 0x20]"

definition strip :: "string \<Rightarrow> string" where
  "strip s = rev (dropWhile is_space (rev (dropWhile is_space s)))"

definition digit_value :: "char \<Rightarrow> nat option" where
  "digit_value c = map_of (zip ''0123456789'' [0, 1, 2, 3, 4, 5, 6, 7, 8, 9]) c"

fun digits_value :: "nat \<Rightarrow> bool \<Rightarrow> string \<Rightarrow> nat option" where
  "digits_value acc after_digit [] = (if after_digit then Some acc else None)"
| "digits_value acc after_digit (c # cs) =
     (if c = CHR ''_'' then (if after_digit then digits_value acc False cs else None)
      else (case digit_value c of
              None \<Rightarrow> None
            | Some d \<Rightarrow> digits_value (acc * 10 + d) True cs))"

definition int_of_str :: "string \<Rightarrow> error + int" where
  "int_of_str s =
     (let t = strip s;
          negative = (t \<noteq> [] \<and> hd t = CHR ''-'');
          ds = (if t \<noteq> [] \<and> (hd t = CHR ''-'' \<or> hd t = CHR ''+'') then tl t else t)
      in case digits_value 0 False ds of
           None \<Rightarrow> Inl ValueError
         | Some n \<Rightarrow> Inr (if negative then - int n else int n))"

text \<open>
  \<open>init\<close>: \<open>files\<close> is what \<^verbatim>\<open>os.listdir\<close> returns for the directory (created when
  missing). The loop keeps the largest index of a file name \<^verbatim>\<open>a.idx.b\<close>, starting from 1;
  a name that does not split into three parts, or whose middle part is no number, raises.
\<close>

fun scan_files :: "string list \<Rightarrow> int \<Rightarrow> error + int" where
  "scan_files [] last_idx' = Inr last_idx'"
| "scan_files (f # files) last_idx' =
     (case split_on CHR ''.'' f of
        [a, idx, b] \<Rightarrow>
          (case int_of_str idx of
             Inl e \<Rightarrow> Inl e
           | Inr i \<Rightarrow> scan_files files (if i > last_idx' then i else last_idx'))
      | _ \<Rightarrow> Inl ValueError)"

definition RollingJSONFileRepository_init ::
  "string \<Rightarrow> string \<Rightarrow> string list \<Rightarrow> error + RollingJSONFileRepository" where
  "RollingJSONFileRepository_init dir prefix files =
     (case scan_files files 1 of
        Inl e \<Rightarrow> Inl e
      | Inr i \<Rightarrow> Inr \<lparr>directory = dir, file_prefix' = prefix, last_idx = i\<rparr>)"

definition get_latest_filename :: "RollingJSONFileRepository \<Rightarrow> string" where
  "get_latest_filename repo = get_filename repo (last_idx repo)"

definition new_file :: "RollingJSONFileRepository \<Rightarrow> RollingJSONFileRepository \<times> string" where
  "new_file repo =
     (let repo' = repo\<lparr>last_idx := last_idx repo + 1\<rparr>
      in (repo', get_filename repo' (last_idx repo')))"

section \<open>The rolling portfolio history store\<close>

record RollingPortofolioHistoryStore =
  file_repository :: RollingJSONFileRepository
  store :: PortofolioHistoryStore

definition max_portofolio :: nat where
  "max_portofolio = 100"

definition init_inner_store :: "string \<Rightarrow> filesystem \<Rightarrow> error + PortofolioHistoryStore" where
  "init_inner_store filename fs = PortofolioHistoryStore_init filename fs"

definition RollingPortofolioHistoryStore_init ::
  "RollingJSONFileRepository \<Rightarrow> filesystem \<Rightarrow> error + RollingPortofolioHistoryStore" where
  "RollingPortofolioHistoryStore_init repo fs =
     (case init_inner_store (get_latest_filename repo) fs of
        Inl e \<Rightarrow> Inl e
      | Inr st \<Rightarrow> Inr \<lparr>file_repository = repo, store = st\<rparr>)"

definition RollingPortofolioHistoryStore_add ::
  "int \<Rightarrow> snapshot \<Rightarrow> RollingPortofolioHistoryStore \<Rightarrow> filesystem
     \<Rightarrow> error + RollingPortofolioHistoryStore \<times> filesystem" where
  "RollingPortofolioHistoryStore_add now snap rs fs =
     (case (if length (history (store rs)) > max_portofolio
            then (let (repo', new_filename) = new_file (file_repository rs)
                  in case init_inner_store new_filename fs of
                       Inl e \<Rightarrow> Inl e
                     | Inr st \<Rightarrow> Inr \<lparr>file_repository = repo', store = st\<rparr>)
            else Inr rs) of
        Inl e \<Rightarrow> Inl e
      | Inr rs' \<Rightarrow>
          (let (st', fs') = PortofolioHistoryStore_add now snap (store rs') fs
           in Inr (rs'\<lparr>store := st'\<rparr>, fs')))"

definition RollingPortofolioHistoryStore_get_last ::
  "RollingPortofolioHistoryStore \<Rightarrow> error + snapshot" where
  "RollingPortofolioHistoryStore_get_last rs = PortofolioHistoryStore_get_last (store rs)"

text \<open>A sequence of \<open>add\<close> calls, each with its clock reading and its snapshot.\<close>

fun add_all ::
  "(int \<times> snapshot) list \<Rightarrow> RollingPortofolioHistoryStore \<Rightarrow> filesystem
     \<Rightarrow> error + RollingPortofolioHistoryStore \<times> filesystem" where
  "add_all [] rs fs = Inr (rs, fs)"
| "add_all ((now, snap) # calls) rs fs =
     (case RollingPortofolioHistoryStore_add now snap rs fs of
        Inl e \<Rightarrow> Inl e
      | Inr (rs', fs') \<Rightarrow> add_all calls rs' fs')"

text \<open>The history entry that the call of \<open>add\<close> at clock reading \<open>now\<close> with \<open>snap\<close> appends.\<close>

definition entry_of :: "int \<times> snapshot \<Rightarrow> entry" where
  "entry_of call = \<lparr>timestamp = fst call, portofolios = snd call\<rparr>"

text \<open>
  What holds of a rolling store and its files after a run of \<open>add\<close> calls on a fresh
  directory, \<open>es\<close> being the entries appended so far: the files are numbered from 1
  without a gap, they hold the entries in order, every file but the last holds
  \<open>max_portofolio + 1 = 101\<close> entries, and the last file is the one of the store in memory.
\<close>

definition rolling_inv ::
  "RollingJSONFileRepository \<Rightarrow> entry list \<Rightarrow> RollingPortofolioHistoryStore \<Rightarrow> filesystem \<Rightarrow> bool" where
  "rolling_inv repo es rs fs \<longleftrightarrow>
     directory (file_repository rs) = directory repo \<and>
     file_prefix' (file_repository rs) = file_prefix' repo \<and>
     storage (store rs) = get_filename repo (last_idx (file_repository rs)) \<and>
     concat (map snd fs) = es \<and>
     map fst fs = map (get_filename repo) [1..int (length fs)] \<and>
     list_all (\<lambda>c. length c = 101) (butlast (map snd fs)) \<and>
     (if fs = [] then last_idx (file_repository rs) = 1 \<and> history (store rs) = []
      else last_idx (file_repository rs) = int (length fs) \<and>
           snd (last fs) = history (store rs) \<and>
           history (store rs) \<noteq> [] \<and> length (history (store rs)) \<le> 101)"

section \<open>The world outside the process\<close>

text \<open>
  The secrets record is what \<^verbatim>\<open>SecretStore\<close> holds in memory and what its JSON file holds.
  An access token may be \<^verbatim>\<open>None\<close>.
\<close>

record secrets =
  access_token :: "string option"
  refresh_token :: string
  telegram_token :: string
  telegram_chat_id :: string

text \<open>
  The JSON bodies the program sends: the empty object (the default \<^verbatim>\<open>data={}\<close>), the
  body of the token refresh (\<^verbatim>\<open>{"notifid": "", "refresh_token": r}\<close>), and the body of a
  Telegram message (\<^verbatim>\<open>{"chat_id": c, "text": t, "parse_mode": "MarkdownV2"}\<close>).
\<close>

datatype json_data =
    EmptyObject
  | RefreshData string
  | SendMessageData string string

record http_request =
  http_method :: string
  url :: string
  json :: json_data
  authorization :: "string option"

text \<open>
  An asset record as the brokerage API returns it has the four fields of \<open>porto_item\<close>
  and others. A response body is read by its shape: no JSON at all (\<^verbatim>\<open>res.json()\<close>
  raises), \<^verbatim>\<open>{"data": {"result": [...]}}\<close>, \<^verbatim>\<open>{"data": {"token": {"access_token": a,
  "refresh_token": r}}}\<close>, the same without the key \<^verbatim>\<open>refresh_token\<close>
  (\<open>AccessTokenJson a\<close>), a JSON object without the key \<^verbatim>\<open>data\<close> (\<open>OtherJson\<close>: the
  subscript raises \<open>KeyError\<close>), or a JSON value that is no object, such as an array, a
  string, a number or \<^verbatim>\<open>null\<close> (\<open>NonObjectJson\<close>: the subscript by a string raises
  \<open>TypeError\<close>).
\<close>

record api_porto_item = porto_item +
  other_fields :: "(string \<times> string) list"

datatype json_body =
    NotJson
  | PortfolioJson "api_porto_item list"
  | TokenJson string string
  | AccessTokenJson string
  | OtherJson
  | NonObjectJson

record response =
  status_code :: nat
  body :: json_body

text \<open>
  The state a run reads and changes. \<open>network\<close> lists what the successive HTTP calls of
  the process will get, in order: a response, or an exception of the transport; when the
  list is used up a call raises \<open>ConnectionError\<close>. \<open>bibit_requests\<close> and
  \<open>telegram_requests\<close> log the requests sent to the two services, \<open>secret_file\<close> is the
  content of the secrets file, \<open>history_files\<close> the files of the history directory.
\<close>

record world =
  network :: "(error + response) list"
  bibit_requests :: "http_request list"
  telegram_requests :: "http_request list"
  secret_store :: secrets
  secret_file :: "secrets option"
  history_store :: RollingPortofolioHistoryStore
  history_files :: filesystem

definition http_send :: "world \<Rightarrow> (error + response) \<times> world" where
  "http_send w =
     (case network w of
        [] \<Rightarrow> (Inl ConnectionError, w)
      | r # rest \<Rightarrow> (r, w\<lparr>network := rest\<rparr>))"

text \<open>\<^verbatim>\<open>Response.raise_for_status()\<close> raises for the statuses 400 to 599.\<close>

definition raise_for_status :: "response \<Rightarrow> error + unit" where
  "raise_for_status res =
     (if 400 \<le> status_code res \<and> status_code res < 600
      then Inl (HTTPError (status_code res)) else Inr ())"

definition SecretStore_save :: "world \<Rightarrow> world" where
  "SecretStore_save w = w\<lparr>secret_file := Some (secret_store w)\<rparr>"

section \<open>The brokerage API client\<close>

text \<open>\<^verbatim>\<open>str.upper()\<close>, for ASCII letters.\<close>

definition upper :: "string \<Rightarrow> string" where
  "upper s =
     map (\<lambda>c. case map_of (zip ''abcdefghijklmnopqrstuvwxyz'' ''ABCDEFGHIJKLMNOPQRSTUVWXYZ'') c of
                 None \<Rightarrow> c
               | Some u \<Rightarrow> u) s"

text \<open>
  \<open>_request\<close>: the bearer header is attached when the access token is truthy (neither
  \<^verbatim>\<open>None\<close> nor the empty string); with \<open>allow_fail\<close> false a response with an error
  status raises.
\<close>

definition BibitAPI__request ::
  "string \<Rightarrow> string \<Rightarrow> json_data \<Rightarrow> bool \<Rightarrow> world \<Rightarrow> (error + response) \<times> world" where
  "BibitAPI__request meth endpoint data allow_fail w =
     (let auth = (case access_token (secret_store w) of
                    None \<Rightarrow> None
                  | Some t \<Rightarrow> if t = [] then None else Some (''Bearer '' @ t));
          req = \<lparr>http_method = upper meth, url = ''https://api.bibit.id'' @ endpoint,
                 json = data, authorization = auth\<rparr>;
          (r, w') = http_send (w\<lparr>bibit_requests := bibit_requests w @ [req]\<rparr>)
      in case r of
           Inl e \<Rightarrow> (Inl e, w')
         | Inr res \<Rightarrow>
             if \<not> allow_fail
             then (case raise_for_status res of
                     Inl e \<Rightarrow> (Inl e, w')
                   | Inr u \<Rightarrow> (Inr res, w'))
             else (Inr res, w'))"

definition BibitAPI__refresh_token :: "world \<Rightarrow> (error + unit) \<times> world" where
  "BibitAPI__refresh_token w =
     (let w0 = w\<lparr>secret_store := (secret_store w)\<lparr>access_token := None\<rparr>\<rparr>
      in case BibitAPI__request ''POST'' ''/auth/token''
                (RefreshData (refresh_token (secret_store w0))) False w0 of
           (Inl e, w1) \<Rightarrow> (Inl e, w1)
         | (Inr res, w1) \<Rightarrow>
             (case body res of
                NotJson \<Rightarrow> (Inl JSONDecodeError, w1)
              | TokenJson a r \<Rightarrow>
                  (Inr (), SecretStore_save
                     (w1\<lparr>secret_store := (secret_store w1)\<lparr>access_token := Some a,
                                                              refresh_token := r\<rparr>\<rparr>))
              | AccessTokenJson a \<Rightarrow>
                  (Inl KeyError, w1\<lparr>secret_store := (secret_store w1)\<lparr>access_token := Some a\<rparr>\<rparr>)
              | NonObjectJson \<Rightarrow> (Inl TypeError, w1)
              | _ \<Rightarrow> (Inl KeyError, w1)))"

text \<open>
  \<open>request\<close> returns a response, or \<^verbatim>\<open>None\<close> when the function runs to its end
  without a \<^verbatim>\<open>return\<close>.
\<close>

definition BibitAPI_request ::
  "string \<Rightarrow> string \<Rightarrow> json_data \<Rightarrow> world \<Rightarrow> (error + response option) \<times> world" where
  "BibitAPI_request meth endpoint data w =
     (case BibitAPI__request meth endpoint data True w of
        (Inl e, w1) \<Rightarrow> (Inl e, w1)
      | (Inr res, w1) \<Rightarrow>
          if status_code res = 200 then (Inr (Some res), w1)
          else if status_code res = 401 then
            (case BibitAPI__refresh_token w1 of
               (Inl e, w2) \<Rightarrow> (Inl e, w2)
             | (Inr u, w2) \<Rightarrow>
                 (case BibitAPI__request meth endpoint data True w2 of
                    (Inl e, w3) \<Rightarrow> (Inl e, w3)
                  | (Inr res', w3) \<Rightarrow> (Inr (Some res'), w3)))
          else (case raise_for_status res of
                  Inl e \<Rightarrow> (Inl e, w1)
                | Inr u \<Rightarrow> (Inr None, w1)))"

text \<open>\<open>get_portofolio\<close>: \<^verbatim>\<open>.json()\<close> of what \<open>request\<close> returns.\<close>

definition BibitAPI_get_portofolio :: "world \<Rightarrow> (error + json_body) \<times> world" where
  "BibitAPI_get_portofolio w =
     (case BibitAPI_request ''GET'' ''/portfolio'' EmptyObject w of
        (Inl e, w1) \<Rightarrow> (Inl e, w1)
      | (Inr None, w1) \<Rightarrow> (Inl AttributeError, w1)
      | (Inr (Some res), w1) \<Rightarrow>
          (case body res of
             NotJson \<Rightarrow> (Inl JSONDecodeError, w1)
           | b \<Rightarrow> (Inr b, w1)))"

section \<open>The Telegram client\<close>

text \<open>\<^verbatim>\<open>s.replace(c, new)\<close> for a one-character \<open>c\<close>.\<close>

definition replace :: "char \<Rightarrow> string \<Rightarrow> string \<Rightarrow> string" where
  "replace c new s = concat (map (\<lambda>x. if x = c then new else [x]) s)"

definition to_replace :: "char list" where
  "to_replace = [CHR ''.'', CHR ''['', CHR '']'', CHR ''-'', CHR ''|'']"

definition TelegramAPI_send_message :: "string \<Rightarrow> world \<Rightarrow> (error + unit) \<times> world" where
  "TelegramAPI_send_message content w =
     (let safe_msg = fold (\<lambda>c msg. replace c [CHR 0x5C, c] msg) to_replace content;
          req = \<lparr>http_method = ''POST'',
                 url = ''https://api.telegram.org/bot'' @ telegram_token (secret_store w)
                         @ ''/sendMessage'',
                 json = SendMessageData (telegram_chat_id (secret_store w)) safe_msg,
                 authorization = None\<rparr>;
          (r, w') = http_send (w\<lparr>telegram_requests := telegram_requests w @ [req]\<rparr>)
      in case r of
           Inl e \<Rightarrow> (Inl e, w')
         | Inr res \<Rightarrow>
             (case raise_for_status res of
                Inl e \<Rightarrow> (Inl e, w')
              | Inr u \<Rightarrow> (Inr (), w')))"

section \<open>The notify job\<close>

definition clean_porto_item :: "api_porto_item \<Rightarrow> porto_item" where
  "clean_porto_item porto_item =
     \<lparr>id' = id' porto_item, invested = invested porto_item,
      marketvalue = marketvalue porto_item, name = name porto_item\<rparr>"

definition clean_porto :: "api_porto_item list \<Rightarrow> snapshot" where
  "clean_porto result = map clean_porto_item result"

text \<open>
  A Python dict is an association list kept in insertion order; assigning to a key that
  is present replaces its value in place.
\<close>

definition build_porto_map :: "snapshot \<Rightarrow> (int \<times> porto_item) list" where
  "build_porto_map porto = foldl (\<lambda>m porto_item. AList.update (id' porto_item) porto_item m) [] porto"

definition format_currency :: "real \<Rightarrow> string" where
  "format_currency num = format_int_commas (py_round num)"

text \<open>
  The three glyphs, as the bytes of their UTF-8 encoding: U+1F4C8 (chart with upwards
  trend), U+1F4C9 (chart with downwards trend), U+2B1C (white large square).
\<close>

definition chart_up :: string where
  "chart_up = [CHR 0xF0, CHR 0x9F, CHR 0x93, CHR 0x88]"

definition chart_down :: string where
  "chart_down = [CHR 0xF0, CHR 0x9F, CHR 0x93, CHR 0x89]"

definition white_square :: string where
  "white_square = [CHR 0xE2, CHR 0xAC, CHR 0x9C]"

definition format_message :: "string \<Rightarrow> real \<Rightarrow> real \<Rightarrow> real \<Rightarrow> string" where
  "format_message nm change_percentage total_value profit =
     (let emoji = (if change_percentage > 1 / 1000000000 then chart_up
                   else if change_percentage < - (1 / 1000000000) then chart_down
                   else white_square);
          change_percentage' = \<bar>change_percentage * 100\<bar>;
          total' = format_currency total_value;
          profit' = format_currency profit
      in emoji @ '' '' @ format_1f change_percentage' @ '' | *'' @ nm @ ''*'' @ [CHR 0x0A]
           @ total' @ '' ['' @ profit' @ '']'' @ [CHR 0x0A])"

text \<open>
  The body of the loop of \<open>_construct_message\<close> for one asset: \<open>last_porto_item\<close> is
  the record of the same id in the last snapshot, if there is one. It yields the change
  ratio, whether the truncated market values differ, and the formatted line; the
  division raises when the invested amount is zero.
\<close>

definition porto_delta :: "porto_item option \<Rightarrow> porto_item \<Rightarrow> error + real \<times> bool \<times> string" where
  "porto_delta last_porto_item porto_item =
     (let last_value = (case last_porto_item of None \<Rightarrow> 0 | Some l \<Rightarrow> marketvalue l);
          last_profit = last_value - (case last_porto_item of None \<Rightarrow> 0 | Some l \<Rightarrow> invested l);
          current_invested = invested porto_item;
          current_value = marketvalue porto_item;
          current_profit = current_value - current_invested
      in if current_invested = 0 then Inl ZeroDivisionError
         else (let change_percentage = 1 * (current_profit - last_profit) / current_invested
               in Inr (change_percentage,
                       py_int current_value \<noteq> py_int last_value,
                       format_message (name porto_item) change_percentage
                         current_value current_profit)))"

fun construct_loop ::
  "(int \<times> porto_item) list \<Rightarrow> (int \<times> porto_item) list \<Rightarrow> int list \<Rightarrow> bool \<Rightarrow> string list
     \<Rightarrow> error + bool \<times> string list" where
  "construct_loop last_porto_map porto_map [] should_send message_parts =
     Inr (should_send, message_parts)"
| "construct_loop last_porto_map porto_map (porto_id # ids) should_send message_parts =
     (case map_of porto_map porto_id of
        None \<Rightarrow> Inl KeyError
      | Some porto_item \<Rightarrow>
          (case porto_delta (map_of last_porto_map porto_id) porto_item of
             Inl e \<Rightarrow> Inl e
           | Inr (change_percentage, differs, formatted) \<Rightarrow>
               construct_loop last_porto_map porto_map ids
                 (if differs then True else should_send) (message_parts @ [formatted])))"

text \<open>\<^verbatim>\<open>sep.join(parts)\<close>.\<close>

fun join :: "string \<Rightarrow> string list \<Rightarrow> string" where
  "join sep [] = []"
| "join sep [x] = x"
| "join sep (x # y # ys) = x @ sep @ join sep (y # ys)"

definition construct_message ::
  "snapshot \<Rightarrow> RollingPortofolioHistoryStore \<Rightarrow> error + bool \<times> string" where
  "construct_message porto hs =
     (case RollingPortofolioHistoryStore_get_last hs of
        Inl e \<Rightarrow> Inl e
      | Inr last_porto \<Rightarrow>
          (let last_porto_map = build_porto_map last_porto;
               porto_map = build_porto_map porto
           in case construct_loop last_porto_map porto_map (sort (map fst porto_map)) False [] of
                Inl e \<Rightarrow> Inl e
              | Inr (should_send, message_parts) \<Rightarrow>
                  Inr (should_send, join [CHR 0x0A] message_parts)))"

text \<open>\<open>run\<close>, with the clock reading \<open>now\<close> that a history entry would get.\<close>

definition run :: "int \<Rightarrow> world \<Rightarrow> (error + unit) \<times> world" where
  "run now w =
     (case BibitAPI_get_portofolio w of
        (Inl e, w1) \<Rightarrow> (Inl e, w1)
      | (Inr portofolio, w1) \<Rightarrow>
          (case portofolio of
             PortfolioJson result \<Rightarrow>
               (let cleaned = clean_porto result
                in case construct_message cleaned (history_store w1) of
                     Inl e \<Rightarrow> (Inl e, w1)
                   | Inr (should_send, message) \<Rightarrow>
                       if should_send then
                         (case TelegramAPI_send_message message w1 of
                            (Inl e, w2) \<Rightarrow> (Inl e, w2)
                          | (Inr u, w2) \<Rightarrow>
                              (case RollingPortofolioHistoryStore_add now cleaned
                                      (history_store w2) (history_files w2) of
                                 Inl e \<Rightarrow> (Inl e, w2)
                               | Inr (hs, fs) \<Rightarrow>
                                   (Inr (), w2\<lparr>history_store := hs, history_files := fs\<rparr>)))
                       else (Inr (), w1))
           | NonObjectJson \<Rightarrow> (Inl TypeError, w1)
           | _ \<Rightarrow> (Inl KeyError, w1)))"

section \<open>Concrete inputs\<close>

text \<open>Worlds and responses on which the theorems below are instantiated.\<close>

definition example_secrets :: secrets where
  "example_secrets = \<lparr>access_token = Some ''A1'', refresh_token = ''R1'',
                      telegram_token = ''T'', telegram_chat_id = ''42''\<rparr>"

definition example_repository :: RollingJSONFileRepository where
  "example_repository = \<lparr>directory = ''history'', file_prefix' = ''history'', last_idx = 1\<rparr>"

definition example_world :: "(error + response) list \<Rightarrow> entry list \<Rightarrow> world" where
  "example_world net hist =
     \<lparr>network = net, bibit_requests = [], telegram_requests = [],
      secret_store = example_secrets, secret_file = Some example_secrets,
      history_store = \<lparr>file_repository = example_repository,
                       store = \<lparr>storage = ''history/history.1.json'', history = hist\<rparr>\<rparr>,
      history_files = (if hist = [] then [] else [(''history/history.1.json'', hist)])\<rparr>"

definition unauthorized :: response where
  "unauthorized = \<lparr>status_code = 401, body = OtherJson\<rparr>"

definition token_response :: response where
  "token_response = \<lparr>status_code = 200, body = TokenJson ''A2'' ''R2''\<rparr>"

definition portfolio_request :: "string \<Rightarrow> http_request" where
  "portfolio_request token =
     \<lparr>http_method = ''GET'', url = ''https://api.bibit.id/portfolio'', json = EmptyObject,
      authorization = Some (''Bearer '' @ token)\<rparr>"

definition refresh_request :: "string \<Rightarrow> http_request" where
  "refresh_request token =
     \<lparr>http_method = ''POST'', url = ''https://api.bibit.id/auth/token'',
      json = RefreshData token, authorization = None\<rparr>"

definition server_error :: response where
  "server_error = \<lparr>status_code = 500, body = NotJson\<rparr>"

definition no_content :: response where
  "no_content = \<lparr>status_code = 204, body = NotJson\<rparr>"

definition message_line :: "snapshot \<Rightarrow> snapshot \<Rightarrow> int \<Rightarrow> string" where
  "message_line last_porto porto pid =
     (case find (\<lambda>item. id' item = pid) porto of
        None \<Rightarrow> []
      | Some item \<Rightarrow>
          (case porto_delta (find (\<lambda>l. id' l = pid) last_porto) item of
             Inl e \<Rightarrow> []
           | Inr (change_percentage, differs, formatted) \<Rightarrow> formatted))"

definition fund_a :: "real \<Rightarrow> real \<Rightarrow> porto_item" where
  "fund_a i v = \<lparr>id' = 1, invested = i, marketvalue = v, name = ''Fund A''\<rparr>"

definition api_fund_a :: "real \<Rightarrow> real \<Rightarrow> api_porto_item" where
  "api_fund_a i v = \<lparr>id' = 1, invested = i, marketvalue = v, name = ''Fund A'',
                     other_fields = [(''type'', ''moneymarket'')]\<rparr>"

definition portfolio_response :: "api_porto_item list \<Rightarrow> response" where
  "portfolio_response result = \<lparr>status_code = 200, body = PortfolioJson result\<rparr>"

definition new_holding :: porto_item where
  "new_holding = \<lparr>id' = 7, invested = 1, marketvalue = 1 / 2, name = ''New''\<rparr>"

definition example_history_store :: "entry list \<Rightarrow> RollingPortofolioHistoryStore" where
  "example_history_store hist =
     \<lparr>file_repository = example_repository,
      store = \<lparr>storage = ''history/history.1.json'', history = hist\<rparr>\<rparr>"

definition fund_b :: "real \<Rightarrow> real \<Rightarrow> porto_item" where
  "fund_b i v = \<lparr>id' = 7, invested = i, marketvalue = v, name = ''Fund B''\<rparr>"

definition last_entry :: "snapshot \<Rightarrow> entry" where
  "last_entry snap = \<lparr>timestamp = 1700000000, portofolios = snap\<rparr>"

section \<open>The history store on its first run\<close>

lemma get_last_never_raises:
  "\<exists>s. PortofolioHistoryStore_get_last st = Inr s"
  by (simp add: PortofolioHistoryStore_get_last_def py_last_def)

text \<open>
  Claim C7. When the backing file does not exist, \<open>load\<close> raises
  \<open>StoreNotInitializedError\<close> and \<open>init\<close> of the history store turns it into the empty
  history instead of raising; \<open>get_last\<close> of a store with an empty history returns the
  empty list and does not raise.
\<close>

theorem C7_first_run:
  "(map_of fs filename = None \<longrightarrow>
      JSONFileStorage_load filename fs = Inl StoreNotInitializedError \<and>
      PortofolioHistoryStore_init filename fs = Inr \<lparr>storage = filename, history = []\<rparr>) \<and>
   (history st = [] \<longrightarrow> PortofolioHistoryStore_get_last st = Inr [])"
  by (simp add: PortofolioHistoryStore_init_def JSONFileStorage_load_def
      PortofolioHistoryStore_get_last_def py_last_def)

theorem C7_first_run_witness:
  "map_of ([] :: filesystem) ''history/history.1.json'' = None \<and>
   PortofolioHistoryStore_init ''history/history.1.json'' [] =
     Inr \<lparr>storage = ''history/history.1.json'', history = []\<rparr> \<and>
   history \<lparr>storage = ''history/history.1.json'', history = []\<rparr> = [] \<and>
   PortofolioHistoryStore_get_last \<lparr>storage = ''history/history.1.json'', history = []\<rparr> = Inr []"
  using C7_first_run [of "[]" "''history/history.1.json''"
      "\<lparr>storage = ''history/history.1.json'', history = []\<rparr>"]
  by simp

section \<open>The token refresh protocol\<close>

lemma upper_GET: "upper ''GET'' = ''GET''"
  by (simp add: upper_def)

lemma upper_POST: "upper ''POST'' = ''POST''"
  by (simp add: upper_def)

lemma inner_request_network:
  "BibitAPI__request meth endpoint data allow_fail w = (r, w') \<Longrightarrow>
     network w' = tl (network w) \<and> secret_store w' = secret_store w \<and>
     secret_file w' = secret_file w \<and> telegram_requests w' = telegram_requests w \<and>
     history_store w' = history_store w \<and> history_files w' = history_files w \<and>
     length (bibit_requests w') = length (bibit_requests w) + 1"
  by (auto simp: BibitAPI__request_def http_send_def Let_def split: list.splits sum.splits if_splits)

lemma refresh_success:
  assumes "BibitAPI__refresh_token w1 = (Inr (), w2)"
  shows "\<exists>res2 rest a r. network w1 = Inr res2 # rest \<and> body res2 = TokenJson a r \<and>
           \<not> (400 \<le> status_code res2 \<and> status_code res2 < 600) \<and>
           secret_store w2 = (secret_store w1)\<lparr>access_token := Some a, refresh_token := r\<rparr> \<and>
           secret_file w2 = Some (secret_store w2) \<and> network w2 = rest \<and>
           bibit_requests w2 = bibit_requests w1 @
             [\<lparr>http_method = ''POST'', url = ''https://api.bibit.id/auth/token'',
               json = RefreshData (refresh_token (secret_store w1)), authorization = None\<rparr>] \<and>
           telegram_requests w2 = telegram_requests w1 \<and>
           history_store w2 = history_store w1 \<and> history_files w2 = history_files w1"
  using assms
  by (auto simp: BibitAPI__refresh_token_def BibitAPI__request_def http_send_def Let_def
      SecretStore_save_def raise_for_status_def upper_POST
      split: list.splits sum.splits if_splits json_body.splits prod.splits)

lemma refresh_error_status:
  assumes "network w1 = Inr res2 # rest" "400 \<le> status_code res2" "status_code res2 < 600"
  shows "BibitAPI__refresh_token w1 =
           (Inl (HTTPError (status_code res2)),
            w1\<lparr>secret_store := (secret_store w1)\<lparr>access_token := None\<rparr>,
               bibit_requests := bibit_requests w1 @
                 [\<lparr>http_method = ''POST'', url = ''https://api.bibit.id/auth/token'',
                   json = RefreshData (refresh_token (secret_store w1)), authorization = None\<rparr>],
               network := rest\<rparr>)"
  using assms
  by (simp add: BibitAPI__refresh_token_def BibitAPI__request_def http_send_def Let_def
      raise_for_status_def upper_POST)

lemma example_first_request:
  "BibitAPI__request ''GET'' ''/portfolio'' EmptyObject True (example_world (r # net) hist) =
     (r, (example_world net hist)\<lparr>bibit_requests := [portfolio_request ''A1'']\<rparr>)"
  by (cases r) (simp_all add: BibitAPI__request_def example_world_def example_secrets_def
      http_send_def upper_GET Let_def portfolio_request_def)

lemma example_refresh:
  "BibitAPI__refresh_token ((example_world (Inr token_response # net) hist)\<lparr>bibit_requests := [portfolio_request ''A1'']\<rparr>) =
     (Inr (), (example_world net hist)
        \<lparr>bibit_requests := [portfolio_request ''A1'', refresh_request ''R1''],
         secret_store := example_secrets\<lparr>access_token := Some ''A2'', refresh_token := ''R2''\<rparr>,
         secret_file := Some (example_secrets\<lparr>access_token := Some ''A2'', refresh_token := ''R2''\<rparr>)\<rparr>)"
  by (simp add: BibitAPI__refresh_token_def BibitAPI__request_def example_world_def example_secrets_def
      http_send_def upper_POST Let_def portfolio_request_def refresh_request_def token_response_def
      raise_for_status_def SecretStore_save_def)

lemma example_retry:
  "BibitAPI__request ''GET'' ''/portfolio'' EmptyObject True ((example_world (r # net) hist)
        \<lparr>bibit_requests := [portfolio_request ''A1'', refresh_request ''R1''],
         secret_store := example_secrets\<lparr>access_token := Some ''A2'', refresh_token := ''R2''\<rparr>,
         secret_file := Some (example_secrets\<lparr>access_token := Some ''A2'', refresh_token := ''R2''\<rparr>)\<rparr>) =
     (r, (example_world net hist)
        \<lparr>bibit_requests := [portfolio_request ''A1'', refresh_request ''R1'', portfolio_request ''A2''],
         secret_store := example_secrets\<lparr>access_token := Some ''A2'', refresh_token := ''R2''\<rparr>,
         secret_file := Some (example_secrets\<lparr>access_token := Some ''A2'', refresh_token := ''R2''\<rparr>)\<rparr>)"
  by (cases r) (simp_all add: BibitAPI__request_def example_world_def example_secrets_def
      http_send_def upper_GET Let_def portfolio_request_def)

lemma example_request_after_401:
  "BibitAPI_request ''GET'' ''/portfolio'' EmptyObject
     (example_world (Inr unauthorized # Inr token_response # Inr res # net) hist) =
   (Inr (Some res), (example_world net hist)
        \<lparr>bibit_requests := [portfolio_request ''A1'', refresh_request ''R1'', portfolio_request ''A2''],
         secret_store := example_secrets\<lparr>access_token := Some ''A2'', refresh_token := ''R2''\<rparr>,
         secret_file := Some (example_secrets\<lparr>access_token := Some ''A2'', refresh_token := ''R2''\<rparr>)\<rparr>)"
  by (simp add: BibitAPI_request_def example_first_request example_refresh example_retry
      unauthorized_def[THEN arg_cong, of status_code])

lemma example_refresh_fails:
  "BibitAPI__refresh_token ((example_world (Inr server_error # net) hist)\<lparr>bibit_requests := [portfolio_request ''A1'']\<rparr>) =
     (Inl (HTTPError 500), (example_world net hist)
        \<lparr>bibit_requests := [portfolio_request ''A1'', refresh_request ''R1''],
         secret_store := example_secrets\<lparr>access_token := None\<rparr>\<rparr>)"
  by (simp add: BibitAPI__refresh_token_def BibitAPI__request_def example_world_def example_secrets_def
      http_send_def upper_POST Let_def portfolio_request_def refresh_request_def server_error_def
      raise_for_status_def)

lemma example_request_refresh_fails:
  "BibitAPI_request ''GET'' ''/portfolio'' EmptyObject
     (example_world (Inr unauthorized # Inr server_error # net) hist) =
   (Inl (HTTPError 500), (example_world net hist)
        \<lparr>bibit_requests := [portfolio_request ''A1'', refresh_request ''R1''],
         secret_store := example_secrets\<lparr>access_token := None\<rparr>\<rparr>)"
  by (simp add: BibitAPI_request_def example_first_request example_refresh_fails
      unauthorized_def [THEN arg_cong, of status_code])

lemma example_world_sel:
  "network (example_world net hist) = net"
  "secret_store (example_world net hist) = example_secrets"
  "secret_file (example_world net hist) = Some example_secrets"
  "bibit_requests (example_world net hist) = []"
  "telegram_requests (example_world net hist) = []"
  by (simp_all add: example_world_def)

text \<open>
  Claim C1, at the input where the code departs from it. The first response is a 401,
  the refresh succeeds, and the retried request gets a 401 again. The claim says that
  \<open>request\<close> raises; the code returns the second 401 response to the caller. (Three
  requests are sent: the original one, the refresh, and one retry.)
\<close>

theorem C1_second_401_is_returned:
  "BibitAPI_request ''GET'' ''/portfolio'' EmptyObject
     (example_world [Inr unauthorized, Inr token_response, Inr unauthorized] []) =
   (Inr (Some unauthorized), (example_world [] [])
        \<lparr>bibit_requests := [portfolio_request ''A1'', refresh_request ''R1'', portfolio_request ''A2''],
         secret_store := example_secrets\<lparr>access_token := Some ''A2'', refresh_token := ''R2''\<rparr>,
         secret_file := Some (example_secrets\<lparr>access_token := Some ''A2'', refresh_token := ''R2''\<rparr>)\<rparr>)"
  by (rule example_request_after_401)

text \<open>
  Claim C4. Let the first response of a \<open>request\<close> call be a 401. If the refresh call
  then succeeds, its response body carries a token pair; afterwards the stored access and
  refresh tokens are that pair and the secrets file holds the stored secrets; the refresh
  was one unauthenticated POST carrying the old refresh token; \<open>request\<close> returns what
  the retried request gives, the retry being made from the state in which the secrets
  are already saved. If the refresh call gets an error status (400 to 599) it raises
  \<open>HTTPError\<close> at once and so does \<open>request\<close>: exactly one more request was sent (no
  nested refresh, no retry) and the secrets file is untouched.
\<close>

theorem C4_refresh_then_retry:
  assumes "BibitAPI__request meth endpoint data True w = (Inr res1, w1)"
    and "status_code res1 = 401"
  shows "(\<forall>w2. BibitAPI__refresh_token w1 = (Inr (), w2) \<longrightarrow>
            (\<exists>res2 rest a r.
               network w1 = Inr res2 # rest \<and> body res2 = TokenJson a r \<and>
               access_token (secret_store w2) = Some a \<and>
               refresh_token (secret_store w2) = r \<and>
               secret_file w2 = Some (secret_store w2) \<and>
               network w2 = rest \<and>
               bibit_requests w2 = bibit_requests w1 @
                 [\<lparr>http_method = ''POST'', url = ''https://api.bibit.id/auth/token'',
                   json = RefreshData (refresh_token (secret_store w1)), authorization = None\<rparr>] \<and>
               BibitAPI_request meth endpoint data w =
                 (case BibitAPI__request meth endpoint data True w2 of
                    (Inl e, w3) \<Rightarrow> (Inl e, w3)
                  | (Inr res', w3) \<Rightarrow> (Inr (Some res'), w3)) \<and>
               secret_store (snd (BibitAPI_request meth endpoint data w)) = secret_store w2 \<and>
               secret_file (snd (BibitAPI_request meth endpoint data w)) = secret_file w2)) \<and>
         (\<forall>res2 rest. network w1 = Inr res2 # rest \<and> 400 \<le> status_code res2 \<and> status_code res2 < 600 \<longrightarrow>
            (\<exists>w2. BibitAPI__refresh_token w1 = (Inl (HTTPError (status_code res2)), w2) \<and>
                  BibitAPI_request meth endpoint data w = (Inl (HTTPError (status_code res2)), w2) \<and>
                  network w2 = rest \<and>
                  bibit_requests w2 = bibit_requests w1 @
                    [\<lparr>http_method = ''POST'', url = ''https://api.bibit.id/auth/token'',
                      json = RefreshData (refresh_token (secret_store w1)), authorization = None\<rparr>] \<and>
                  secret_file w2 = secret_file w1))"
proof (intro conjI allI impI)
  fix w2
  assume ok: "BibitAPI__refresh_token w1 = (Inr (), w2)"
  from refresh_success [OF ok] obtain res2 rest a r where
    f: "network w1 = Inr res2 # rest" "body res2 = TokenJson a r"
       "secret_store w2 = (secret_store w1)\<lparr>access_token := Some a, refresh_token := r\<rparr>"
       "secret_file w2 = Some (secret_store w2)" "network w2 = rest"
       "bibit_requests w2 = bibit_requests w1 @
             [\<lparr>http_method = ''POST'', url = ''https://api.bibit.id/auth/token'',
               json = RefreshData (refresh_token (secret_store w1)), authorization = None\<rparr>]"
    by blast
  have req: "BibitAPI_request meth endpoint data w =
                 (case BibitAPI__request meth endpoint data True w2 of
                    (Inl e, w3) \<Rightarrow> (Inl e, w3)
                  | (Inr res', w3) \<Rightarrow> (Inr (Some res'), w3))"
    using assms ok by (simp add: BibitAPI_request_def)
  obtain r3 w3 where third: "BibitAPI__request meth endpoint data True w2 = (r3, w3)"
    by (cases "BibitAPI__request meth endpoint data True w2")
  have keep: "secret_store w3 = secret_store w2" "secret_file w3 = secret_file w2"
    using inner_request_network [OF third] by simp_all
  have snd_eq: "snd (BibitAPI_request meth endpoint data w) = w3"
    using req third by (cases r3) simp_all
  show "\<exists>res2 rest a r.
               network w1 = Inr res2 # rest \<and> body res2 = TokenJson a r \<and>
               access_token (secret_store w2) = Some a \<and>
               refresh_token (secret_store w2) = r \<and>
               secret_file w2 = Some (secret_store w2) \<and>
               network w2 = rest \<and>
               bibit_requests w2 = bibit_requests w1 @
                 [\<lparr>http_method = ''POST'', url = ''https://api.bibit.id/auth/token'',
                   json = RefreshData (refresh_token (secret_store w1)), authorization = None\<rparr>] \<and>
               BibitAPI_request meth endpoint data w =
                 (case BibitAPI__request meth endpoint data True w2 of
                    (Inl e, w3) \<Rightarrow> (Inl e, w3)
                  | (Inr res', w3) \<Rightarrow> (Inr (Some res'), w3)) \<and>
               secret_store (snd (BibitAPI_request meth endpoint data w)) = secret_store w2 \<and>
               secret_file (snd (BibitAPI_request meth endpoint data w)) = secret_file w2"
    using f req keep snd_eq by (intro exI [of _ res2] exI [of _ rest] exI [of _ a] exI [of _ r]) simp
next
  fix res2 rest
  assume h: "network w1 = Inr res2 # rest \<and> 400 \<le> status_code res2 \<and> status_code res2 < 600"
  then have e: "BibitAPI__refresh_token w1 =
           (Inl (HTTPError (status_code res2)),
            w1\<lparr>secret_store := (secret_store w1)\<lparr>access_token := None\<rparr>,
               bibit_requests := bibit_requests w1 @
                 [\<lparr>http_method = ''POST'', url = ''https://api.bibit.id/auth/token'',
                   json = RefreshData (refresh_token (secret_store w1)), authorization = None\<rparr>],
               network := rest\<rparr>)"
    using refresh_error_status by blast
  show "\<exists>w2. BibitAPI__refresh_token w1 = (Inl (HTTPError (status_code res2)), w2) \<and>
                  BibitAPI_request meth endpoint data w = (Inl (HTTPError (status_code res2)), w2) \<and>
                  network w2 = rest \<and>
                  bibit_requests w2 = bibit_requests w1 @
                    [\<lparr>http_method = ''POST'', url = ''https://api.bibit.id/auth/token'',
                      json = RefreshData (refresh_token (secret_store w1)), authorization = None\<rparr>] \<and>
                  secret_file w2 = secret_file w1"
    using assms e by (simp add: BibitAPI_request_def)
qed

theorem C4_refresh_then_retry_witness:
  "BibitAPI__request ''GET'' ''/portfolio'' EmptyObject True
      (example_world [Inr unauthorized, Inr token_response, Inr no_content] []) =
     (Inr unauthorized,
      (example_world [Inr token_response, Inr no_content] [])\<lparr>bibit_requests := [portfolio_request ''A1'']\<rparr>) \<and>
   status_code unauthorized = 401 \<and>
   fst (BibitAPI__refresh_token
      ((example_world [Inr token_response, Inr no_content] [])\<lparr>bibit_requests := [portfolio_request ''A1'']\<rparr>)) = Inr () \<and>
   fst (BibitAPI_request ''GET'' ''/portfolio'' EmptyObject
      (example_world [Inr unauthorized, Inr token_response, Inr no_content] [])) = Inr (Some no_content) \<and>
   access_token (secret_store (snd (BibitAPI_request ''GET'' ''/portfolio'' EmptyObject
      (example_world [Inr unauthorized, Inr token_response, Inr no_content] [])))) = Some ''A2'' \<and>
   refresh_token (secret_store (snd (BibitAPI_request ''GET'' ''/portfolio'' EmptyObject
      (example_world [Inr unauthorized, Inr token_response, Inr no_content] [])))) = ''R2'' \<and>
   secret_file (snd (BibitAPI_request ''GET'' ''/portfolio'' EmptyObject
      (example_world [Inr unauthorized, Inr token_response, Inr no_content] []))) =
     Some (example_secrets\<lparr>access_token := Some ''A2'', refresh_token := ''R2''\<rparr>) \<and>
   network ((example_world [Inr server_error, Inr no_content] [])\<lparr>bibit_requests := [portfolio_request ''A1'']\<rparr>) =
     [Inr server_error, Inr no_content] \<and>
   400 \<le> status_code server_error \<and> status_code server_error < 600 \<and>
   fst (BibitAPI_request ''GET'' ''/portfolio'' EmptyObject
      (example_world [Inr unauthorized, Inr server_error, Inr no_content] [])) = Inl (HTTPError 500) \<and>
   network (snd (BibitAPI_request ''GET'' ''/portfolio'' EmptyObject
      (example_world [Inr unauthorized, Inr server_error, Inr no_content] []))) = [Inr no_content]"
  using
    C4_refresh_then_retry [OF example_first_request [of "Inr unauthorized" "[Inr token_response, Inr no_content]" "[]"]]
    C4_refresh_then_retry [OF example_first_request [of "Inr unauthorized" "[Inr server_error, Inr no_content]" "[]"]]
  by (simp add: example_first_request example_refresh example_request_after_401
      example_request_refresh_fails example_world_sel
      unauthorized_def [THEN arg_cong, of status_code]
      server_error_def [THEN arg_cong, of status_code])

text \<open>
  Claim C10. When the first response of a \<open>request\<close> call has a status below 400 other
  than 200 (204 or 302, say; such a status is not 401), \<open>raise_for_status\<close> does not
  raise and the function ends without a \<^verbatim>\<open>return\<close>: the caller gets \<^verbatim>\<open>None\<close>, neither the
  response nor an exception.
\<close>

theorem C10_other_success_returns_None:
  assumes "BibitAPI__request meth endpoint data True w = (Inr res, w1)"
    and "status_code res \<noteq> 200" and "status_code res < 400"
  shows "BibitAPI_request meth endpoint data w = (Inr None, w1)"
  using assms by (simp add: BibitAPI_request_def raise_for_status_def)

theorem C10_other_success_returns_None_witness:
  "BibitAPI__request ''GET'' ''/portfolio'' EmptyObject True (example_world [Inr no_content] []) =
     (Inr no_content, (example_world [] [])\<lparr>bibit_requests := [portfolio_request ''A1'']\<rparr>) \<and>
   status_code no_content \<noteq> 200 \<and> status_code no_content < 400 \<and>
   BibitAPI_request ''GET'' ''/portfolio'' EmptyObject (example_world [Inr no_content] []) =
     (Inr None, (example_world [] [])\<lparr>bibit_requests := [portfolio_request ''A1'']\<rparr>)"
  using C10_other_success_returns_None
    [OF example_first_request [of "Inr no_content" "[]" "[]"]]
  by (simp add: example_first_request no_content_def [THEN arg_cong, of status_code])

section \<open>The notify job: change detection and the message\<close>

lemma update_absent: "k \<notin> fst ` set al \<Longrightarrow> AList.update k v al = al @ [(k, v)]"
  by (induction al) auto

lemma foldl_update_Some:
  "map_of (foldl (\<lambda>m item. AList.update (id' item) item m) m0 xs) pid = Some (x :: porto_item) \<Longrightarrow>
     (x \<in> set xs \<and> id' x = pid) \<or> map_of m0 pid = Some x"
proof (induction xs arbitrary: m0)
  case Nil
  then show ?case by simp
next
  case (Cons a xs)
  from Cons.IH [of "AList.update (id' a) a m0"] Cons.prems
  show ?case by (auto simp: update_conv' split: if_splits)
qed

lemma build_porto_map_Some:
  "map_of (build_porto_map porto) pid = Some item \<Longrightarrow> item \<in> set porto \<and> id' item = pid"
  using foldl_update_Some [of "[]" porto pid item] by (simp add: build_porto_map_def)

lemma foldl_update_keys:
  "fst ` set (foldl (\<lambda>m item. AList.update (id' item) item m) m0 xs) =
     fst ` set m0 \<union> id' ` set (xs :: porto_item list)"
  by (induction xs arbitrary: m0) (auto simp: dom_update)

lemma build_porto_map_keys: "fst ` set (build_porto_map porto) = id' ` set porto"
  by (simp add: build_porto_map_def foldl_update_keys)

lemma foldl_update_distinct:
  "distinct (map id' xs) \<Longrightarrow> id' ` set xs \<inter> fst ` set m0 = {} \<Longrightarrow>
     foldl (\<lambda>m item. AList.update (id' item) item m) m0 xs =
       m0 @ map (\<lambda>item :: porto_item. (id' item, item)) xs"
proof (induction xs arbitrary: m0)
  case Nil
  then show ?case by simp
next
  case (Cons a xs)
  have a: "id' a \<notin> fst ` set m0" using Cons.prems(2) by auto
  have "foldl (\<lambda>m item. AList.update (id' item) item m) (m0 @ [(id' a, a)]) xs =
          (m0 @ [(id' a, a)]) @ map (\<lambda>item. (id' item, item)) xs"
    using Cons.prems by (intro Cons.IH) auto
  then show ?case by (simp add: update_absent [OF a])
qed

lemma build_porto_map_distinct:
  "distinct (map id' porto) \<Longrightarrow> build_porto_map porto = map (\<lambda>item. (id' item, item)) porto"
  using foldl_update_distinct [of porto "[]"] by (simp add: build_porto_map_def)

lemma map_of_find: "map_of (map (\<lambda>x. (f x, x)) xs) k = find (\<lambda>x. f x = k) xs"
  by (induction xs) auto

lemma porto_delta_Inl:
  "porto_delta l item = Inl e \<Longrightarrow> e = ZeroDivisionError \<and> invested item = 0"
  by (auto simp: porto_delta_def Let_def split: if_splits)

lemma porto_delta_zero: "invested item = 0 \<Longrightarrow> porto_delta l item = Inl ZeroDivisionError"
  by (simp add: porto_delta_def Let_def)

lemma porto_delta_differs:
  "porto_delta l item = Inr (c, d, f) \<Longrightarrow>
     d = (py_int (marketvalue item) \<noteq> py_int (case l of None \<Rightarrow> 0 | Some x \<Rightarrow> marketvalue x))"
  by (auto simp: porto_delta_def Let_def split: if_splits)

lemma construct_loop_cong:
  "map_of lm = map_of lm' \<Longrightarrow> map_of pm = map_of pm' \<Longrightarrow>
     construct_loop lm pm ids ss parts = construct_loop lm' pm' ids ss parts"
  by (induction ids arbitrary: ss parts) (auto split: option.splits sum.splits)

lemma construct_loop_unchanged:
  assumes "\<forall>pid\<in>set ids. \<forall>item. map_of pm pid = Some item \<longrightarrow>
             py_int (marketvalue item) =
               py_int (case map_of lm pid of None \<Rightarrow> 0 | Some l \<Rightarrow> marketvalue l)"
    and "construct_loop lm pm ids ss parts = Inr (ss', parts')"
  shows "ss' = ss"
  using assms
proof (induction ids arbitrary: ss parts)
  case Nil
  then show ?case by simp
next
  case (Cons pid ids)
  from Cons.prems(2) obtain item c d f where
    it: "map_of pm pid = Some item" and
    de: "porto_delta (map_of lm pid) item = Inr (c, d, f)" and
    rest: "construct_loop lm pm ids (if d then True else ss) (parts @ [f]) = Inr (ss', parts')"
    by (auto split: option.splits sum.splits)
  have "\<not> d" using porto_delta_differs [OF de] Cons.prems(1) it by simp
  with rest Cons.IH [of ss "parts @ [f]"] Cons.prems(1) show ?case by simp
qed

lemma construct_loop_zero:
  assumes "pid \<in> set ids" "map_of pm pid = Some item" "invested item = 0"
    and "set ids \<subseteq> fst ` set pm"
  shows "construct_loop lm pm ids ss parts = Inl ZeroDivisionError"
  using assms
proof (induction ids arbitrary: ss parts)
  case Nil
  then show ?case by simp
next
  case (Cons p ids)
  from Cons.prems(4) obtain it where it: "map_of pm p = Some it"
    by (metis list.set_intros(1) subsetD weak_map_of_SomeI map_of_eq_None_iff not_Some_eq)
  show ?case
  proof (cases "porto_delta (map_of lm p) it")
    case (Inl e)
    then show ?thesis using it porto_delta_Inl [OF Inl] by simp
  next
    case (Inr r)
    then have "invested it \<noteq> 0" using porto_delta_zero [of it "map_of lm p"] by auto
    then have "p \<noteq> pid" using it Cons.prems(2,3) by auto
    then have "pid \<in> set ids" using Cons.prems(1) by simp
    then show ?thesis using Cons.IH Cons.prems it Inr by (auto split: prod.splits)
  qed
qed

lemma refresh_frame:
  "BibitAPI__refresh_token w = (r, w') \<Longrightarrow>
     telegram_requests w' = telegram_requests w \<and> history_store w' = history_store w \<and>
     history_files w' = history_files w"
  by (auto simp: BibitAPI__refresh_token_def BibitAPI__request_def http_send_def Let_def
      SecretStore_save_def split: list.splits sum.splits if_splits json_body.splits prod.splits)

lemma request_frame:
  assumes "BibitAPI_request meth endpoint data w = (r, w')"
  shows "telegram_requests w' = telegram_requests w \<and> history_store w' = history_store w \<and>
         history_files w' = history_files w"
proof -
  obtain r1 w1 where a: "BibitAPI__request meth endpoint data True w = (r1, w1)"
    by (cases "BibitAPI__request meth endpoint data True w")
  obtain r2 w2 where b: "BibitAPI__refresh_token w1 = (r2, w2)"
    by (cases "BibitAPI__refresh_token w1")
  obtain r3 w3 where c: "BibitAPI__request meth endpoint data True w2 = (r3, w3)"
    by (cases "BibitAPI__request meth endpoint data True w2")
  have "w' = w1 \<or> w' = w2 \<or> w' = w3"
    using assms a b c
    by (auto simp: BibitAPI_request_def split: sum.splits if_splits)
  then show ?thesis
    using inner_request_network [OF a] refresh_frame [OF b] inner_request_network [OF c]
    by auto
qed

lemma get_portofolio_frame:
  assumes "BibitAPI_get_portofolio w = (r, w')"
  shows "telegram_requests w' = telegram_requests w \<and> history_store w' = history_store w \<and>
         history_files w' = history_files w"
proof -
  obtain r1 w1 where a: "BibitAPI_request ''GET'' ''/portfolio'' EmptyObject w = (r1, w1)"
    by (cases "BibitAPI_request ''GET'' ''/portfolio'' EmptyObject w")
  have "w' = w1"
    using assms a
    by (auto simp: BibitAPI_get_portofolio_def split: sum.splits option.splits json_body.splits)
  then show ?thesis using request_frame [OF a] by simp
qed

lemma rolling_get_last_never_raises:
  "\<exists>s. RollingPortofolioHistoryStore_get_last hs = Inr s"
  by (simp add: RollingPortofolioHistoryStore_get_last_def get_last_never_raises)

text \<open>
  Claim C3. Let the API return a portfolio. If for every asset of the cleaned current
  snapshot the truncated market value equals the truncated market value of the asset
  with the same id in the last stored snapshot (0 when the id is missing there), whatever
  the invested amounts are, then the run sends no Telegram request and leaves the history
  files and the in-memory history store as they were: the state after the run is the
  state right after fetching the portfolio.
\<close>

theorem C3_no_change_no_notification:
  assumes "BibitAPI_get_portofolio w = (Inr (PortfolioJson result), w1)"
    and "RollingPortofolioHistoryStore_get_last (history_store w) = Inr last_porto"
    and "\<forall>item\<in>set (clean_porto result).
           py_int (marketvalue item) =
             py_int (case map_of (build_porto_map last_porto) (id' item) of
                       None \<Rightarrow> 0
                     | Some l \<Rightarrow> marketvalue l)"
  shows "snd (run now w) = w1 \<and>
         telegram_requests (snd (run now w)) = telegram_requests w \<and>
         history_files (snd (run now w)) = history_files w \<and>
         history_store (snd (run now w)) = history_store w"
proof -
  have frame: "telegram_requests w1 = telegram_requests w" "history_store w1 = history_store w"
    "history_files w1 = history_files w"
    using get_portofolio_frame [OF assms(1)] by simp_all
  have quiet: "ss = False"
    if "construct_message (clean_porto result) (history_store w1) = Inr (ss, msg)" for ss msg
  proof -
    from that assms(2) frame(2) obtain parts where
      loop: "construct_loop (build_porto_map last_porto) (build_porto_map (clean_porto result))
               (sort (map fst (build_porto_map (clean_porto result)))) False [] = Inr (ss, parts)"
      by (auto simp: construct_message_def Let_def split: sum.splits)
    have "\<forall>pid\<in>set (sort (map fst (build_porto_map (clean_porto result)))).
            \<forall>item. map_of (build_porto_map (clean_porto result)) pid = Some item \<longrightarrow>
              py_int (marketvalue item) =
                py_int (case map_of (build_porto_map last_porto) pid of
                          None \<Rightarrow> 0 | Some l \<Rightarrow> marketvalue l)"
      using assms(3) build_porto_map_Some by blast
    from construct_loop_unchanged [OF this loop] show ?thesis .
  qed
  have "snd (run now w) = w1"
  proof (cases "construct_message (clean_porto result) (history_store w1)")
    case (Inl e)
    then show ?thesis using assms(1) by (simp add: run_def Let_def)
  next
    case (Inr p)
    obtain ss msg where p: "p = (ss, msg)" by (cases p)
    with Inr quiet have "ss = False" by simp
    with Inr p show ?thesis using assms(1) by (simp add: run_def Let_def)
  qed
  with frame show ?thesis by simp
qed

text \<open>
  Claim C5. Let the API return a portfolio whose cleaned snapshot (with unique ids, as a
  snapshot has) contains an asset with invested amount 0. Then the run raises
  \<open>ZeroDivisionError\<close>; no Telegram request is sent and the history files and the
  history store are unchanged.
\<close>

theorem C5_zero_invested_raises:
  assumes "BibitAPI_get_portofolio w = (Inr (PortfolioJson result), w1)"
    and "item \<in> set (clean_porto result)"
    and "invested item = 0"
    and "distinct (map id' (clean_porto result))"
  shows "run now w = (Inl ZeroDivisionError, w1) \<and>
         telegram_requests w1 = telegram_requests w \<and>
         history_files w1 = history_files w \<and>
         history_store w1 = history_store w"
proof -
  let ?porto = "clean_porto result"
  let ?pm = "build_porto_map ?porto"
  obtain last_porto where
    last: "RollingPortofolioHistoryStore_get_last (history_store w1) = Inr last_porto"
    using rolling_get_last_never_raises by blast
  have pm: "?pm = map (\<lambda>item. (id' item, item)) ?porto"
    using build_porto_map_distinct [OF assms(4)] .
  have "map_of ?pm (id' item) = Some item"
    unfolding pm using assms(2,4)
    by (intro map_of_is_SomeI) (auto simp: comp_def)
  moreover have "id' item \<in> set (sort (map fst ?pm))"
    using assms(2) by (simp add: build_porto_map_keys)
  moreover have "set (sort (map fst ?pm)) \<subseteq> fst ` set ?pm" by simp
  ultimately have "construct_loop (build_porto_map last_porto) ?pm (sort (map fst ?pm)) False [] =
      Inl ZeroDivisionError"
    using construct_loop_zero assms(3) by blast
  then have "construct_message ?porto (history_store w1) = Inl ZeroDivisionError"
    using last by (simp add: construct_message_def Let_def)
  then have "run now w = (Inl ZeroDivisionError, w1)"
    using assms(1) by (simp add: run_def Let_def)
  then show ?thesis using get_portofolio_frame [OF assms(1)] by simp
qed

lemma construct_loop_parts:
  "construct_loop lm pm ids ss parts = Inr (ss', parts') \<Longrightarrow>
     parts' = parts @ map (\<lambda>pid. case map_of pm pid of
                                    None \<Rightarrow> []
                                  | Some item \<Rightarrow>
                                      (case porto_delta (map_of lm pid) item of
                                         Inl e \<Rightarrow> []
                                       | Inr (c, d, f) \<Rightarrow> f)) ids"
proof (induction ids arbitrary: ss parts)
  case Nil
  then show ?case by simp
next
  case (Cons pid ids)
  from Cons.prems obtain item c d f where
    it: "map_of pm pid = Some item" and
    de: "porto_delta (map_of lm pid) item = Inr (c, d, f)" and
    rest: "construct_loop lm pm ids (if d then True else ss) (parts @ [f]) = Inr (ss', parts')"
    by (auto split: option.splits sum.splits)
  from Cons.IH [OF rest] it de show ?case by simp
qed

lemma construct_loop_True:
  "construct_loop lm pm ids True parts = Inr (ss', parts') \<Longrightarrow> ss'"
  by (induction ids arbitrary: parts) (auto split: option.splits sum.splits)

lemma construct_loop_triggered:
  assumes "pid \<in> set ids" "map_of pm pid = Some item"
    and "py_int (marketvalue item) \<noteq>
           py_int (case map_of lm pid of None \<Rightarrow> 0 | Some l \<Rightarrow> marketvalue l)"
    and "construct_loop lm pm ids ss parts = Inr (ss', parts')"
  shows "ss'"
  using assms
proof (induction ids arbitrary: ss parts)
  case Nil
  then show ?case by simp
next
  case (Cons p ids)
  from Cons.prems(4) obtain it c d f where
    it: "map_of pm p = Some it" and
    de: "porto_delta (map_of lm p) it = Inr (c, d, f)" and
    rest: "construct_loop lm pm ids (if d then True else ss) (parts @ [f]) = Inr (ss', parts')"
    by (auto split: option.splits sum.splits)
  show ?case
  proof (cases "p = pid")
    case True
    then have "d" using porto_delta_differs [OF de] it Cons.prems(2,3) by simp
    with rest construct_loop_True show ?thesis by simp
  next
    case False
    then have "pid \<in> set ids" using Cons.prems(1) by simp
    from Cons.IH [OF this Cons.prems(2,3) rest] show ?thesis .
  qed
qed

lemma construct_loop_total:
  assumes "\<forall>pid\<in>set ids. \<exists>item. map_of pm pid = Some item \<and> invested item \<noteq> 0"
  shows "\<exists>r. construct_loop lm pm ids ss parts = Inr r"
  using assms
proof (induction ids arbitrary: ss parts)
  case Nil
  then show ?case by simp
next
  case (Cons p ids)
  then obtain it where it: "map_of pm p = Some it" "invested it \<noteq> 0" by auto
  then obtain c d f where "porto_delta (map_of lm p) it = Inr (c, d, f)"
    by (auto simp: porto_delta_def Let_def)
  with it Cons show ?case by simp
qed

text \<open>
  Claim C6, amended. Let \<open>item\<close> be the record of the asset id \<open>pid\<close> in the current
  snapshot's mapping, and let \<open>pid\<close> be absent from the last stored snapshot. Then the
  prior market value and invested amount are taken as 0: the change ratio is
  (market value - invested) / invested (the division raising when invested is 0), and
  the asset sets the should-notify flag whenever its market value truncated to an
  integer is not zero.
\<close>

theorem C6_new_holding:
  assumes "RollingPortofolioHistoryStore_get_last hs = Inr last_porto"
    and "map_of (build_porto_map porto) pid = Some item"
    and "pid \<notin> id' ` set last_porto"
  shows "porto_delta (map_of (build_porto_map last_porto) pid) item =
           (if invested item = 0 then Inl ZeroDivisionError
            else Inr ((marketvalue item - invested item) / invested item,
                      py_int (marketvalue item) \<noteq> 0,
                      format_message (name item)
                        ((marketvalue item - invested item) / invested item)
                        (marketvalue item) (marketvalue item - invested item))) \<and>
         (\<forall>ss msg. construct_message porto hs = Inr (ss, msg) \<and> py_int (marketvalue item) \<noteq> 0
            \<longrightarrow> ss)"
proof -
  have absent: "map_of (build_porto_map last_porto) pid = None"
    using assms(3) build_porto_map_Some [of last_porto pid] by (cases "map_of (build_porto_map last_porto) pid") auto
  have zero: "py_int 0 = 0" by (simp add: py_int_def)
  have first: "porto_delta (map_of (build_porto_map last_porto) pid) item =
           (if invested item = 0 then Inl ZeroDivisionError
            else Inr ((marketvalue item - invested item) / invested item,
                      py_int (marketvalue item) \<noteq> 0,
                      format_message (name item)
                        ((marketvalue item - invested item) / invested item)
                        (marketvalue item) (marketvalue item - invested item)))"
    by (simp add: absent porto_delta_def Let_def zero)
  have second: "ss" if m: "construct_message porto hs = Inr (ss, msg)"
    and nz: "py_int (marketvalue item) \<noteq> 0" for ss msg
  proof -
    from m assms(1) obtain parts where
      loop: "construct_loop (build_porto_map last_porto) (build_porto_map porto)
               (sort (map fst (build_porto_map porto))) False [] = Inr (ss, parts)"
      by (auto simp: construct_message_def Let_def split: sum.splits)
    have "pid \<in> set (sort (map fst (build_porto_map porto)))"
      using assms(2) by (simp add: build_porto_map_keys) (metis build_porto_map_Some image_eqI)
    from construct_loop_triggered [OF this assms(2) _ loop] nz absent zero show ?thesis by simp
  qed
  from first second show ?thesis by blast
qed

lemma format_new_holding:
  "format_message ''New'' (- (1 / 2)) (1 / 2) (- (1 / 2)) =
     chart_down @ '' 50.0 | *New*'' @ [CHR 0x0A] @ ''0 [0]'' @ [CHR 0x0A]"
  by (simp add: format_message_def Let_def format_currency_def format_int_commas_def py_round_def
      format_1f_def str_nat.simps group_thousands.simps digit_def)

lemma new_holding_delta:
  "porto_delta None new_holding =
     Inr (- (1 / 2), False, chart_down @ '' 50.0 | *New*'' @ [CHR 0x0A] @ ''0 [0]'' @ [CHR 0x0A])"
  by (simp add: porto_delta_def new_holding_def Let_def py_int_def format_new_holding)

text \<open>
  The claim as stated fails: a new holding with market value 0.5 (not zero) and nothing
  in the history does not trigger a notification, since \<^verbatim>\<open>int(0.5) == int(0)\<close>.
\<close>

theorem C6_counterexample:
  "RollingPortofolioHistoryStore_get_last (example_history_store []) = Inr [] \<and>
   marketvalue new_holding \<noteq> 0 \<and>
   construct_message [new_holding] (example_history_store []) =
     Inr (False, chart_down @ '' 50.0 | *New*'' @ [CHR 0x0A] @ ''0 [0]'' @ [CHR 0x0A])"
  by (simp add: construct_message_def RollingPortofolioHistoryStore_get_last_def
      PortofolioHistoryStore_get_last_def py_last_def example_history_store_def
      build_porto_map_def Let_def new_holding_delta new_holding_def [THEN arg_cong, of id']
      new_holding_def [THEN arg_cong, of marketvalue])

lemma construct_message_total:
  assumes "\<forall>item\<in>set porto. invested item \<noteq> 0"
  shows "\<exists>ss msg. construct_message porto hs = Inr (ss, msg)"
proof -
  obtain last_porto where
    last: "RollingPortofolioHistoryStore_get_last hs = Inr last_porto"
    using rolling_get_last_never_raises by blast
  have "\<forall>pid\<in>set (sort (map fst (build_porto_map porto))).
          \<exists>item. map_of (build_porto_map porto) pid = Some item \<and> invested item \<noteq> 0"
  proof
    fix pid assume "pid \<in> set (sort (map fst (build_porto_map porto)))"
    then have "pid \<in> fst ` set (build_porto_map porto)" by simp
    then obtain item where "map_of (build_porto_map porto) pid = Some item"
      by (metis map_of_eq_None_iff not_Some_eq)
    with build_porto_map_Some [OF this] assms
    show "\<exists>item. map_of (build_porto_map porto) pid = Some item \<and> invested item \<noteq> 0" by auto
  qed
  from construct_loop_total [OF this] obtain r where
    "construct_loop (build_porto_map last_porto) (build_porto_map porto)
       (sort (map fst (build_porto_map porto))) False [] = Inr r" by blast
  then show ?thesis using last by (cases r) (simp add: construct_message_def Let_def)
qed

lemma build_porto_map_perm:
  assumes "distinct (map id' porto)" "mset porto' = mset porto"
  shows "map_of (build_porto_map porto') = map_of (build_porto_map porto)"
    and "sort (map fst (build_porto_map porto')) = sort (map fst (build_porto_map porto))"
    and "distinct (map id' porto')"
proof -
  have "mset (map id' porto') = mset (map id' porto)" using assms(2) by simp
  then show d: "distinct (map id' porto')" using assms(1) mset_eq_imp_distinct_iff by blast
  have b: "build_porto_map porto = map (\<lambda>item. (id' item, item)) porto"
    "build_porto_map porto' = map (\<lambda>item. (id' item, item)) porto'"
    using build_porto_map_distinct assms(1) d by simp_all
  have s: "set porto' = set porto" using assms(2) mset_eq_setD by blast
  show "map_of (build_porto_map porto') = map_of (build_porto_map porto)"
    unfolding b using assms(1) d s
    by (subst map_of_inject_set) (simp_all add: comp_def)
  have "mset (map fst (build_porto_map porto')) = mset (map fst (build_porto_map porto))"
    unfolding b using assms(2) by (simp add: comp_def)
  then show "sort (map fst (build_porto_map porto')) = sort (map fst (build_porto_map porto))"
    by (metis mset_sort sorted_sort properties_for_sort)
qed

text \<open>
  Claim C8. For a current and a last snapshot with unique asset ids, listing the records
  of either in another order changes neither the message nor the should-notify flag
  (nor the exception, if one is raised); the message is the lines of the assets in
  strictly ascending order of id, joined by newlines.
\<close>

theorem C8_order_independent:
  assumes "distinct (map id' porto)" and "mset porto' = mset porto"
    and "RollingPortofolioHistoryStore_get_last hs = Inr last_porto"
    and "RollingPortofolioHistoryStore_get_last hs' = Inr last_porto'"
    and "distinct (map id' last_porto)" and "mset last_porto' = mset last_porto"
  shows "construct_message porto' hs' = construct_message porto hs \<and>
         (\<forall>should_send message. construct_message porto hs = Inr (should_send, message) \<longrightarrow>
            message = join [CHR 0x0A]
              (map (message_line last_porto porto) (sort (map id' porto)))) \<and>
         sorted_wrt (<) (sort (map id' porto))"
proof (intro conjI allI impI)
  note p = build_porto_map_perm [OF assms(1,2)]
  note l = build_porto_map_perm [OF assms(5,6)]
  show "construct_message porto' hs' = construct_message porto hs"
    using assms(3,4) p(2) construct_loop_cong [OF l(1) p(1)]
    by (simp add: construct_message_def Let_def)
  show "sorted_wrt (<) (sort (map id' porto))"
    using assms(1) by (simp add: strict_sorted_iff)
next
  fix ss msg
  assume m: "construct_message porto hs = Inr (ss, msg)"
  have bp: "build_porto_map porto = map (\<lambda>item. (id' item, item)) porto"
    using build_porto_map_distinct [OF assms(1)] .
  have bl: "build_porto_map last_porto = map (\<lambda>item. (id' item, item)) last_porto"
    using build_porto_map_distinct [OF assms(5)] .
  from m assms(3) obtain parts where
    loop: "construct_loop (build_porto_map last_porto) (build_porto_map porto)
             (sort (map fst (build_porto_map porto))) False [] = Inr (ss, parts)"
    and msg: "msg = join [CHR 0x0A] parts"
    by (auto simp: construct_message_def Let_def split: sum.splits)
  have keys: "map fst (build_porto_map porto) = map id' porto"
    by (simp add: bp comp_def)
  have loop': "construct_loop (map (\<lambda>item. (id' item, item)) last_porto)
                 (map (\<lambda>item. (id' item, item)) porto) (sort (map id' porto)) False [] =
               Inr (ss, parts)"
    using loop unfolding keys unfolding bp bl .
  have "parts = map (message_line last_porto porto) (sort (map id' porto))"
    using construct_loop_parts [OF loop']
    by (simp add: message_line_def map_of_find cong: option.case_cong)
  with msg show "msg = join [CHR 0x0A] (map (message_line last_porto porto) (sort (map id' porto)))"
    by simp
qed

lemma example_get_portofolio:
  "BibitAPI_get_portofolio (example_world (Inr (portfolio_response result) # net) hist) =
     (Inr (PortfolioJson result),
      (example_world net hist)\<lparr>bibit_requests := [portfolio_request ''A1'']\<rparr>)"
  by (simp add: BibitAPI_get_portofolio_def BibitAPI_request_def example_first_request
      portfolio_response_def)

lemma example_world_get_last:
  "RollingPortofolioHistoryStore_get_last (history_store (example_world net [last_entry snap])) =
     Inr snap"
  by (simp add: RollingPortofolioHistoryStore_get_last_def PortofolioHistoryStore_get_last_def
      py_last_def example_world_def last_entry_def)

lemma example_store_get_last:
  "RollingPortofolioHistoryStore_get_last (example_history_store [last_entry snap]) = Inr snap"
  by (simp add: RollingPortofolioHistoryStore_get_last_def PortofolioHistoryStore_get_last_def
      py_last_def example_history_store_def last_entry_def)

lemma example_world_history:
  "history_files (example_world net hist) =
     (if hist = [] then [] else [(''history/history.1.json'', hist)])"
  "history_store (example_world net hist) = example_history_store hist"
  by (simp_all add: example_world_def example_history_store_def)

lemma clean_api_fund_a: "clean_porto [api_fund_a i v] = [fund_a i v]"
  by (simp add: clean_porto_def clean_porto_item_def api_fund_a_def fund_a_def)

lemma fund_sel:
  "id' (fund_a i v) = 1" "invested (fund_a i v) = i" "marketvalue (fund_a i v) = v"
  "id' (fund_b i v) = 7" "invested (fund_b i v) = i" "marketvalue (fund_b i v) = v"
  by (simp_all add: fund_a_def fund_b_def)

theorem C3_no_change_no_notification_witness:
  "BibitAPI_get_portofolio
      (example_world [Inr (portfolio_response [api_fund_a 900 (5252 / 5)])]
         [last_entry [fund_a 1000 1050]]) =
     (Inr (PortfolioJson [api_fund_a 900 (5252 / 5)]),
      (example_world [] [last_entry [fund_a 1000 1050]])
        \<lparr>bibit_requests := [portfolio_request ''A1'']\<rparr>) \<and>
   RollingPortofolioHistoryStore_get_last
      (history_store (example_world [Inr (portfolio_response [api_fund_a 900 (5252 / 5)])]
         [last_entry [fund_a 1000 1050]])) = Inr [fund_a 1000 1050] \<and>
   list_all (\<lambda>item. py_int (marketvalue item) =
                py_int (case map_of (build_porto_map [fund_a 1000 1050]) (id' item) of
                          None \<Rightarrow> 0 | Some l \<Rightarrow> marketvalue l))
     (clean_porto [api_fund_a 900 (5252 / 5)]) \<and>
   snd (run 1700000600
          (example_world [Inr (portfolio_response [api_fund_a 900 (5252 / 5)])]
             [last_entry [fund_a 1000 1050]])) =
     (example_world [] [last_entry [fund_a 1000 1050]])
        \<lparr>bibit_requests := [portfolio_request ''A1'']\<rparr> \<and>
   telegram_requests (snd (run 1700000600
          (example_world [Inr (portfolio_response [api_fund_a 900 (5252 / 5)])]
             [last_entry [fund_a 1000 1050]]))) = [] \<and>
   history_files (snd (run 1700000600
          (example_world [Inr (portfolio_response [api_fund_a 900 (5252 / 5)])]
             [last_entry [fund_a 1000 1050]]))) =
     [(''history/history.1.json'', [last_entry [fund_a 1000 1050]])]"
proof -
  have same: "\<forall>item\<in>set (clean_porto [api_fund_a 900 (5252 / 5)]).
          py_int (marketvalue item) =
            py_int (case map_of (build_porto_map [fund_a 1000 1050]) (id' item) of
                      None \<Rightarrow> 0 | Some l \<Rightarrow> marketvalue l)"
    by (simp add: clean_api_fund_a build_porto_map_def fund_sel py_int_def)
  from C3_no_change_no_notification
    [OF example_get_portofolio [of _ "[]"] example_world_get_last same,
     where now = 1700000600]
  show ?thesis
    using same
    by (simp add: example_get_portofolio example_store_get_last list_all_iff
        example_world_sel example_world_history)
qed

theorem C5_zero_invested_raises_witness:
  "BibitAPI_get_portofolio
      (example_world [Inr (portfolio_response [api_fund_a 0 1100])]
         [last_entry [fund_a 1000 1050]]) =
     (Inr (PortfolioJson [api_fund_a 0 1100]),
      (example_world [] [last_entry [fund_a 1000 1050]])
        \<lparr>bibit_requests := [portfolio_request ''A1'']\<rparr>) \<and>
   fund_a 0 1100 \<in> set (clean_porto [api_fund_a 0 1100]) \<and>
   invested (fund_a 0 1100) = 0 \<and>
   distinct (map id' (clean_porto [api_fund_a 0 1100])) \<and>
   run 1700000600
      (example_world [Inr (portfolio_response [api_fund_a 0 1100])]
         [last_entry [fund_a 1000 1050]]) =
     (Inl ZeroDivisionError,
      (example_world [] [last_entry [fund_a 1000 1050]])
        \<lparr>bibit_requests := [portfolio_request ''A1'']\<rparr>) \<and>
   telegram_requests ((example_world [] [last_entry [fund_a 1000 1050]])
        \<lparr>bibit_requests := [portfolio_request ''A1'']\<rparr>) = [] \<and>
   history_files ((example_world [] [last_entry [fund_a 1000 1050]])
        \<lparr>bibit_requests := [portfolio_request ''A1'']\<rparr>) =
     [(''history/history.1.json'', [last_entry [fund_a 1000 1050]])]"
proof -
  have a: "fund_a 0 1100 \<in> set (clean_porto [api_fund_a 0 1100])"
    by (simp add: clean_api_fund_a)
  have b: "invested (fund_a 0 1100) = 0" by (simp add: fund_sel)
  have c: "distinct (map id' (clean_porto [api_fund_a 0 1100]))"
    by (simp add: clean_api_fund_a)
  from C5_zero_invested_raises
    [OF example_get_portofolio [of _ "[]"] a b c, where now = 1700000600]
  show ?thesis
    using a b c
    by (simp add: example_get_portofolio example_world_sel example_world_history)
qed

lemma build_two:
  "build_porto_map [fund_b i v, fund_a j u] = [(7, fund_b i v), (1, fund_a j u)]"
  "build_porto_map [fund_a j u, fund_b i v] = [(1, fund_a j u), (7, fund_b i v)]"
  "build_porto_map [fund_a j u] = [(1, fund_a j u)]"
  by (simp_all add: build_porto_map_def fund_sel)

theorem C6_new_holding_witness:
  "RollingPortofolioHistoryStore_get_last (example_history_store [last_entry [fund_a 1000 1050]]) =
     Inr [fund_a 1000 1050] \<and>
   map_of (build_porto_map [fund_b 200 250, fund_a 1000 1100]) 7 = Some (fund_b 200 250) \<and>
   7 \<notin> id' ` set [fund_a 1000 1050] \<and>
   porto_delta (map_of (build_porto_map [fund_a 1000 1050]) 7) (fund_b 200 250) =
     Inr (1 / 4, True, format_message ''Fund B'' (1 / 4) 250 50) \<and>
   py_int (marketvalue (fund_b 200 250)) \<noteq> 0 \<and>
   (case construct_message [fund_b 200 250, fund_a 1000 1100]
           (example_history_store [last_entry [fund_a 1000 1050]]) of
      Inl e \<Rightarrow> False
    | Inr (should_send, message) \<Rightarrow> should_send)"
proof -
  have a: "map_of (build_porto_map [fund_b 200 250, fund_a 1000 1100]) 7 = Some (fund_b 200 250)"
    by (simp add: build_two)
  have b: "7 \<notin> id' ` set [fund_a 1000 1050]" by (simp add: fund_sel)
  have nz: "py_int (marketvalue (fund_b 200 250)) \<noteq> 0" by (simp add: fund_sel py_int_def)
  have "\<forall>item\<in>set [fund_b 200 250, fund_a 1000 1100]. invested item \<noteq> 0"
    by (simp add: fund_sel)
  from construct_message_total [OF this] obtain ss msg where
    m: "construct_message [fund_b 200 250, fund_a 1000 1100]
          (example_history_store [last_entry [fund_a 1000 1050]]) = Inr (ss, msg)"
    by blast
  from C6_new_holding [OF example_store_get_last a b] m nz
  show ?thesis
    using a b by (simp add: example_store_get_last fund_b_def)
qed

theorem C8_order_independent_witness:
  "distinct (map id' [fund_b 200 250, fund_a 1000 1100]) \<and>
   mset [fund_a 1000 1100, fund_b 200 250] = mset [fund_b 200 250, fund_a 1000 1100] \<and>
   RollingPortofolioHistoryStore_get_last
     (example_history_store [last_entry [fund_a 1000 1050, fund_b 200 240]]) =
     Inr [fund_a 1000 1050, fund_b 200 240] \<and>
   RollingPortofolioHistoryStore_get_last
     (example_history_store [last_entry [fund_b 200 240, fund_a 1000 1050]]) =
     Inr [fund_b 200 240, fund_a 1000 1050] \<and>
   distinct (map id' [fund_a 1000 1050, fund_b 200 240]) \<and>
   mset [fund_b 200 240, fund_a 1000 1050] = mset [fund_a 1000 1050, fund_b 200 240] \<and>
   construct_message [fund_a 1000 1100, fund_b 200 250]
     (example_history_store [last_entry [fund_b 200 240, fund_a 1000 1050]]) =
   construct_message [fund_b 200 250, fund_a 1000 1100]
     (example_history_store [last_entry [fund_a 1000 1050, fund_b 200 240]]) \<and>
   sort (map id' [fund_b 200 250, fund_a 1000 1100]) = [1, 7] \<and>
   (case construct_message [fund_b 200 250, fund_a 1000 1100]
           (example_history_store [last_entry [fund_a 1000 1050, fund_b 200 240]]) of
      Inl e \<Rightarrow> False
    | Inr (should_send, message) \<Rightarrow>
        message = join [CHR 0x0A]
          [message_line [fund_a 1000 1050, fund_b 200 240] [fund_b 200 250, fund_a 1000 1100] 1,
           message_line [fund_a 1000 1050, fund_b 200 240] [fund_b 200 250, fund_a 1000 1100] 7])"
proof -
  have a: "distinct (map id' [fund_b 200 250, fund_a 1000 1100])" by (simp add: fund_sel)
  have b: "mset [fund_a 1000 1100, fund_b 200 250] = mset [fund_b 200 250, fund_a 1000 1100]"
    by simp
  have c: "distinct (map id' [fund_a 1000 1050, fund_b 200 240])" by (simp add: fund_sel)
  have d: "mset [fund_b 200 240, fund_a 1000 1050] = mset [fund_a 1000 1050, fund_b 200 240]"
    by simp
  have s: "sort (map id' [fund_b 200 250, fund_a 1000 1100]) = [1, 7]" by (simp add: fund_sel)
  have "\<forall>item\<in>set [fund_b 200 250, fund_a 1000 1100]. invested item \<noteq> 0"
    by (simp add: fund_sel)
  from construct_message_total [OF this] obtain ss msg where
    m: "construct_message [fund_b 200 250, fund_a 1000 1100]
          (example_history_store [last_entry [fund_a 1000 1050, fund_b 200 240]]) = Inr (ss, msg)"
    by blast
  from C8_order_independent [OF a b example_store_get_last example_store_get_last c d] m
  show ?thesis
    using a b c d s by (simp add: example_store_get_last)
qed

section \<open>The rolling history log\<close>

text \<open>File names are injective in the index: the decimal numeral of an int determines it.\<close>

lemma digit_inj: "a < 10 \<Longrightarrow> b < 10 \<Longrightarrow> digit a = digit b \<Longrightarrow> a = b"
  unfolding digit_def
  by (subst (asm) nth_eq_iff_index_eq) simp_all

lemma digit_not_minus: "a < 10 \<Longrightarrow> digit a \<noteq> CHR ''-''"
proof -
  assume "a < 10"
  then have "digit a \<in> set ''0123456789''" unfolding digit_def by (intro nth_mem) simp
  then show ?thesis by auto
qed

lemma str_nat_nonempty: "str_nat n \<noteq> []"
  by (subst str_nat.simps) simp

lemma str_nat_length_ge2: "\<not> n < 10 \<Longrightarrow> 2 \<le> length (str_nat n)"
  using str_nat_nonempty [of "n div 10"]
  by (subst str_nat.simps) (cases "str_nat (n div 10)", simp_all)

lemma str_nat_inj: "str_nat n = str_nat m \<Longrightarrow> n = m"
proof (induction n arbitrary: m rule: str_nat.induct)
  case (1 n)
  show ?case
  proof (cases "n < 10")
    case True
    then have n: "str_nat n = [digit n]" by (subst str_nat.simps) simp
    have "m < 10"
    proof (rule ccontr)
      assume "\<not> m < 10"
      from str_nat_length_ge2 [OF this] have "2 \<le> length (str_nat m)" .
      moreover have "length (str_nat m) = 1" using "1.prems" n by (metis length_Cons list.size(3) One_nat_def)
      ultimately show False by simp
    qed
    then have "str_nat m = [digit m]" by (subst str_nat.simps) simp
    with n "1.prems" have "digit n = digit m" by simp
    with True \<open>m < 10\<close> show ?thesis by (rule digit_inj)
  next
    case False
    then have n: "str_nat n = str_nat (n div 10) @ [digit (n mod 10)]"
      by (subst str_nat.simps) simp
    have "\<not> m < 10"
    proof
      assume "m < 10"
      then have "str_nat m = [digit m]" by (subst str_nat.simps) simp
      then have "length (str_nat n) = 1" using "1.prems" by simp
      with str_nat_length_ge2 [OF False] show False by simp
    qed
    then have m: "str_nat m = str_nat (m div 10) @ [digit (m mod 10)]"
      by (subst str_nat.simps) simp
    from n m "1.prems" have a: "str_nat (n div 10) = str_nat (m div 10)"
      and b: "digit (n mod 10) = digit (m mod 10)" by simp_all
    from "1.IH" [OF False a] have "n div 10 = m div 10" .
    moreover from b have "n mod 10 = m mod 10" by (intro digit_inj) simp_all
    ultimately show ?thesis by (metis div_mult_mod_eq)
  qed
qed

lemma str_nat_no_minus: "hd (str_nat n) \<noteq> CHR ''-''"
proof (induction n rule: str_nat.induct)
  case (1 n)
  show ?case
  proof (cases "n < 10")
    case True
    then show ?thesis using digit_not_minus [of n] by (subst str_nat.simps) simp
  next
    case False
    then show ?thesis
      using "1.IH" str_nat_nonempty [of "n div 10"] by (subst str_nat.simps) simp
  qed
qed

lemma str_int_inj: "str_int i = str_int j \<Longrightarrow> i = j"
proof -
  assume e: "str_int i = str_int j"
  have neg: "hd (str_int k) = CHR ''-'' \<longleftrightarrow> k < 0" for k
    using str_nat_no_minus [of "nat k"] by (simp add: str_int_def)
  from e neg [of i] neg [of j] have s: "i < 0 \<longleftrightarrow> j < 0" by simp
  show ?thesis
  proof (cases "i < 0")
    case True
    with s e have "str_nat (nat (- i)) = str_nat (nat (- j))" by (simp add: str_int_def)
    from str_nat_inj [OF this] True s show ?thesis by simp
  next
    case False
    with s e have "str_nat (nat i) = str_nat (nat j)" by (simp add: str_int_def)
    from str_nat_inj [OF this] False s show ?thesis by simp
  qed
qed

lemma path_join_inj:
  assumes "path_join a (p @ CHR ''.'' # x) = path_join a (p @ CHR ''.'' # y)"
  shows "x = y"
proof -
  let ?b = "p @ CHR ''.'' # x" and ?c = "p @ CHR ''.'' # y"
  have h: "hd ?b = hd ?c" by (cases p) simp_all
  have "?b = ?c"
  proof (cases "hd ?b = CHR ''/''")
    case True
    with h assms show ?thesis unfolding path_join_def by simp
  next
    case False
    with h have "hd ?c \<noteq> CHR ''/''" by simp
    with False assms show ?thesis
      unfolding path_join_def by (cases "a = [] \<or> last a = CHR ''/''") simp_all
  qed
  then show ?thesis by simp
qed

lemma get_filename_inj: "get_filename repo i = get_filename repo j \<Longrightarrow> i = j"
proof -
  assume "get_filename repo i = get_filename repo j"
  then have "path_join (directory repo) (file_prefix' repo @ CHR ''.'' # (str_int i @ ''.json'')) =
             path_join (directory repo) (file_prefix' repo @ CHR ''.'' # (str_int j @ ''.json''))"
    by (simp add: get_filename_def)
  from path_join_inj [OF this] show ?thesis using str_int_inj by simp
qed

lemma get_filename_cong:
  "directory r = directory r' \<Longrightarrow> file_prefix' r = file_prefix' r' \<Longrightarrow>
     get_filename r i = get_filename r' i"
  by (simp add: get_filename_def)

lemma add_no_rollover:
  "length (history (store rs)) \<le> 100 \<Longrightarrow>
     RollingPortofolioHistoryStore_add now snap rs fs =
       Inr (rs\<lparr>store := (store rs)\<lparr>history := history (store rs) @
                    [\<lparr>timestamp = now, portofolios = snap\<rparr>]\<rparr>\<rparr>,
            AList.update (storage (store rs))
              (history (store rs) @ [\<lparr>timestamp = now, portofolios = snap\<rparr>]) fs)"
  by (simp add: RollingPortofolioHistoryStore_add_def max_portofolio_def
      PortofolioHistoryStore_add_def PortofolioHistoryStore_save_def JSONFileStorage_dump_def Let_def)

lemma add_rollover:
  assumes "100 < length (history (store rs))"
    and "map_of fs (get_filename (file_repository rs) (last_idx (file_repository rs) + 1)) = None"
  shows "RollingPortofolioHistoryStore_add now snap rs fs =
       Inr (\<lparr>file_repository = (file_repository rs)\<lparr>last_idx := last_idx (file_repository rs) + 1\<rparr>,
             store = \<lparr>storage = get_filename (file_repository rs) (last_idx (file_repository rs) + 1),
                      history = [\<lparr>timestamp = now, portofolios = snap\<rparr>]\<rparr>\<rparr>,
            AList.update (get_filename (file_repository rs) (last_idx (file_repository rs) + 1))
              [\<lparr>timestamp = now, portofolios = snap\<rparr>] fs)"
proof -
  have f: "get_filename ((file_repository rs)\<lparr>last_idx := last_idx (file_repository rs) + 1\<rparr>)
             (last_idx (file_repository rs) + 1) =
           get_filename (file_repository rs) (last_idx (file_repository rs) + 1)"
    by (simp add: get_filename_def)
  show ?thesis
    using assms
    by (simp add: RollingPortofolioHistoryStore_add_def max_portofolio_def new_file_def Let_def f
        init_inner_store_def PortofolioHistoryStore_init_def JSONFileStorage_load_def
        PortofolioHistoryStore_add_def PortofolioHistoryStore_save_def JSONFileStorage_dump_def)
qed

lemma update_last: "k \<notin> fst ` set al \<Longrightarrow> AList.update k v (al @ [(k, w)]) = al @ [(k, v)]"
  by (induction al) auto

lemma map_filename_inj:
  "get_filename repo j \<in> set (map (get_filename repo) [a..b]) \<Longrightarrow> a \<le> j \<and> j \<le> b"
  by (auto dest: get_filename_inj)

lemma rolling_add_step:
  assumes inv: "rolling_inv repo es rs fs"
  shows "\<exists>rs' fs'. RollingPortofolioHistoryStore_add now snap rs fs = Inr (rs', fs') \<and>
           rolling_inv repo (es @ [\<lparr>timestamp = now, portofolios = snap\<rparr>]) rs' fs'"
proof -
  let ?e = "\<lparr>timestamp = now, portofolios = snap\<rparr>"
  let ?h = "history (store rs)"
  let ?gf = "get_filename repo"
  let ?n = "int (length fs)"
  from inv have dir: "directory (file_repository rs) = directory repo"
    "file_prefix' (file_repository rs) = file_prefix' repo"
    and sto: "storage (store rs) = ?gf (last_idx (file_repository rs))"
    and cat: "concat (map snd fs) = es"
    and keys: "map fst fs = map ?gf [1..?n]"
    and full: "list_all (\<lambda>c. length c = 101) (butlast (map snd fs))"
    by (simp_all add: rolling_inv_def)
  have gf: "get_filename (file_repository rs) i = ?gf i" for i
    using dir by (rule get_filename_cong)
  show ?thesis
  proof (cases "fs = []")
    case True
    with inv have k: "last_idx (file_repository rs) = 1" and h: "?h = []"
      by (simp_all add: rolling_inv_def)
    have "RollingPortofolioHistoryStore_add now snap rs fs =
            Inr (rs\<lparr>store := (store rs)\<lparr>history := [?e]\<rparr>\<rparr>, [(?gf 1, [?e])])"
      using add_no_rollover [of rs now snap fs] h True sto k by simp
    moreover have "rolling_inv repo (es @ [?e]) (rs\<lparr>store := (store rs)\<lparr>history := [?e]\<rparr>\<rparr>)
                     [(?gf 1, [?e])]"
      using dir sto k cat True by (simp add: rolling_inv_def)
    ultimately show ?thesis by blast
  next
    case False
    with inv have k: "last_idx (file_repository rs) = ?n" and l: "snd (last fs) = ?h"
      and hne: "?h \<noteq> []" and hle: "length ?h \<le> 101"
      by (simp_all add: rolling_inv_def)
    have n1: "1 \<le> ?n" using False by (cases fs) simp_all
    have lastkey: "fst (last fs) = ?gf ?n"
    proof -
      have "fst (last fs) = last (map fst fs)" using False by (simp add: last_map)
      also have "\<dots> = last (map ?gf [1..?n])" using keys by simp
      also have "\<dots> = ?gf ?n" using n1 by (simp add: upto_rec2 [of 1 ?n])
      finally show ?thesis .
    qed
    have split: "fs = butlast fs @ [(?gf ?n, ?h)]"
      using False lastkey l by (metis append_butlast_last_id prod.collapse)
    have bkeys: "map fst (butlast fs) = map ?gf [1..?n - 1]"
    proof -
      have "map fst (butlast fs) = butlast (map fst fs)" by (simp add: map_butlast)
      also have "\<dots> = butlast (map ?gf [1..?n])" using keys by simp
      also have "\<dots> = map ?gf [1..?n - 1]" using n1 by (simp add: upto_rec2 [of 1 ?n])
      finally show ?thesis .
    qed
    have fresh_last: "?gf ?n \<notin> fst ` set (butlast fs)"
    proof
      assume "?gf ?n \<in> fst ` set (butlast fs)"
      then have "?gf ?n \<in> set (map ?gf [1..?n - 1])" using bkeys by (metis set_map)
      from map_filename_inj [OF this] show False by simp
    qed
    show ?thesis
    proof (cases "length ?h \<le> 100")
      case True
      have upd: "AList.update (?gf ?n) (?h @ [?e]) fs = butlast fs @ [(?gf ?n, ?h @ [?e])]"
        using update_last [OF fresh_last, of "?h @ [?e]" ?h] split by simp
      let ?rs' = "rs\<lparr>store := (store rs)\<lparr>history := ?h @ [?e]\<rparr>\<rparr>"
      let ?fs' = "butlast fs @ [(?gf ?n, ?h @ [?e])]"
      have r: "RollingPortofolioHistoryStore_add now snap rs fs = Inr (?rs', ?fs')"
        using add_no_rollover [OF True, of now snap fs] sto k upd by simp
      have c: "concat (map snd ?fs') = es @ [?e]"
      proof -
        have "es = concat (map snd (butlast fs)) @ ?h"
          using cat by (subst (asm) split) simp
        then show ?thesis by simp
      qed
      have len: "length ?fs' = length fs" using False by simp
      have ks: "map fst ?fs' = map ?gf [1..int (length ?fs')]"
        unfolding len using keys by (subst (asm) split) simp
      have b: "butlast (map snd ?fs') = butlast (map snd fs)"
        by (simp add: map_butlast butlast_append)
      have "rolling_inv repo (es @ [?e]) ?rs' ?fs'"
        unfolding rolling_inv_def
        using dir sto k c ks full b True len by simp
      with r show ?thesis by blast
    next
      case over: False
      then have h101: "length ?h = 101" using hle by simp
      let ?fn = "?gf (?n + 1)"
      have absent: "?fn \<notin> fst ` set fs"
      proof
        assume "?fn \<in> fst ` set fs"
        then have "?fn \<in> set (map ?gf [1..?n])" using keys by (metis set_map)
        from map_filename_inj [OF this] show False by simp
      qed
      then have none: "map_of fs (get_filename (file_repository rs)
                         (last_idx (file_repository rs) + 1)) = None"
        by (simp add: gf k map_of_eq_None_iff)
      let ?rs' = "\<lparr>file_repository = (file_repository rs)\<lparr>last_idx := ?n + 1\<rparr>,
                  store = \<lparr>storage = ?fn, history = [?e]\<rparr>\<rparr>"
      let ?fs' = "fs @ [(?fn, [?e])]"
      have r: "RollingPortofolioHistoryStore_add now snap rs fs = Inr (?rs', ?fs')"
        using add_rollover [OF _ none, of now snap] over update_absent [OF absent]
        by (simp add: gf k)
      have up: "[1..?n + 1] = [1..?n] @ [?n + 1]"
        using n1 upto_rec2 [of 1 "?n + 1"] by simp
      have len': "int (length ?fs') = ?n + 1" by simp
      have ks: "map fst ?fs' = map ?gf [1..int (length ?fs')]"
        unfolding len' up using keys by simp
      have b: "list_all (\<lambda>c. length c = 101) (butlast (map snd ?fs'))"
      proof -
        have "map snd fs = butlast (map snd fs) @ [?h]"
          using False l by (metis append_butlast_last_id last_map map_is_Nil_conv)
        then have "list_all (\<lambda>c. length c = 101) (map snd fs)"
          using full h101 by (metis list_all_append list.pred_inject)
        then show ?thesis by (simp add: butlast_append)
      qed
      have "rolling_inv repo (es @ [?e]) ?rs' ?fs'"
        unfolding rolling_inv_def
        using dir cat ks b by simp
      with r show ?thesis by blast
    qed
  qed
qed

lemma length_concat_uniform:
  "list_all (\<lambda>c. length c = k) cs \<Longrightarrow> length (concat cs) = k * length cs"
  by (induction cs) simp_all

lemma full_chunk_div: "0 < (n::nat) \<Longrightarrow> n \<le> 101 \<Longrightarrow> (n + 100) div 101 = 1"
  by simp

lemma rolling_inv_count:
  assumes "rolling_inv repo es rs fs"
  shows "length fs = (length es + 100) div 101"
proof (cases "fs = []")
  case True
  with assms show ?thesis by (simp add: rolling_inv_def)
next
  case False
  let ?h = "history (store rs)"
  from assms False have cat: "concat (map snd fs) = es"
    and full: "list_all (\<lambda>c. length c = 101) (butlast (map snd fs))"
    and l: "snd (last fs) = ?h" and hne: "?h \<noteq> []" and hle: "length ?h \<le> 101"
    by (simp_all add: rolling_inv_def)
  have sp: "map snd fs = butlast (map snd fs) @ [?h]"
    using False l by (metis append_butlast_last_id last_map map_is_Nil_conv)
  have "concat (butlast (map snd fs)) @ ?h = es"
    using cat by (subst (asm) sp) simp
  then have "length es = length (concat (butlast (map snd fs))) + length ?h"
    by (metis length_append)
  also have "\<dots> = 101 * (length fs - 1) + length ?h"
    using length_concat_uniform [OF full] by simp
  finally have es: "length es = 101 * (length fs - 1) + length ?h" .
  have pos: "0 < length fs" "0 < length ?h" using False hne by simp_all
  obtain m where m: "length fs = Suc m" using pos by (cases "length fs") simp_all
  have "(length es + 100) div 101 = (101 * m + (length ?h + 100)) div 101"
    using es m by simp
  also have "\<dots> = m + (length ?h + 100) div 101" by simp
  also have "(length ?h + 100) div 101 = 1" using pos(2) hle by (rule full_chunk_div)
  finally show ?thesis using m by simp
qed

lemma add_all_inv:
  "rolling_inv repo es rs fs \<Longrightarrow>
   \<exists>rs' fs'. add_all calls rs fs = Inr (rs', fs') \<and>
     rolling_inv repo (es @ map entry_of calls) rs' fs'"
proof (induction calls arbitrary: es rs fs)
  case Nil
  then show ?case by simp
next
  case (Cons call calls)
  obtain now snap where c: "call = (now, snap)" by (cases call)
  from rolling_add_step [OF Cons.prems, of now snap] obtain rs1 fs1 where
    a: "RollingPortofolioHistoryStore_add now snap rs fs = Inr (rs1, fs1)"
    and i: "rolling_inv repo (es @ [\<lparr>timestamp = now, portofolios = snap\<rparr>]) rs1 fs1"
    by blast
  from Cons.IH [OF i] obtain rs' fs' where
    "add_all calls rs1 fs1 = Inr (rs', fs')"
    "rolling_inv repo ((es @ [\<lparr>timestamp = now, portofolios = snap\<rparr>]) @ map entry_of calls) rs' fs'"
    by blast
  moreover have "entry_of call = \<lparr>timestamp = now, portofolios = snap\<rparr>"
    using c by (simp add: entry_of_def)
  ultimately show ?case using a c by simp
qed

lemma fresh_repository:
  "RollingJSONFileRepository_init dir prefix [] =
     Inr \<lparr>directory = dir, file_prefix' = prefix, last_idx = 1\<rparr>"
  by (simp add: RollingJSONFileRepository_init_def)

lemma fresh_store:
  "RollingPortofolioHistoryStore_init repo [] =
     Inr \<lparr>file_repository = repo, store = \<lparr>storage = get_filename repo (last_idx repo), history = []\<rparr>\<rparr>"
  by (simp add: RollingPortofolioHistoryStore_init_def init_inner_store_def
      PortofolioHistoryStore_init_def JSONFileStorage_load_def get_latest_filename_def)

lemma fresh_inv:
  "last_idx repo = 1 \<Longrightarrow>
   rolling_inv repo []
     \<lparr>file_repository = repo, store = \<lparr>storage = get_filename repo (last_idx repo), history = []\<rparr>\<rparr> []"
  by (simp add: rolling_inv_def)

lemma filenames_distinct: "distinct (map (get_filename repo) [1..n])"
  by (auto simp: distinct_map intro!: inj_onI dest: get_filename_inj)

lemma rolling_fresh_run:
  assumes "last_idx repo = 1"
  shows "\<exists>rs fs.
     add_all calls
       \<lparr>file_repository = repo, store = \<lparr>storage = get_filename repo (last_idx repo), history = []\<rparr>\<rparr> []
       = Inr (rs, fs) \<and>
     length fs = (length calls + 100) div 101 \<and>
     map fst fs = map (get_filename repo) [1..int (length fs)] \<and>
     distinct (map fst fs) \<and>
     concat (map snd fs) = map entry_of calls \<and>
     list_all (\<lambda>c. length c = 101) (butlast (map snd fs)) \<and>
     (fs \<noteq> [] \<and> last (map snd fs) \<noteq> [] \<and> length (last (map snd fs)) \<le> 101 \<or> calls = [])"
proof -
  from add_all_inv [OF fresh_inv [OF assms], of calls, simplified] obtain rs fs where
    a: "add_all calls \<lparr>file_repository = repo,
          store = \<lparr>storage = get_filename repo (last_idx repo), history = []\<rparr>\<rparr> [] = Inr (rs, fs)"
    and i: "rolling_inv repo (map entry_of calls) rs fs"
    by blast
  from rolling_inv_count [OF i] have n: "length fs = (length calls + 100) div 101" by simp
  from i have k: "map fst fs = map (get_filename repo) [1..int (length fs)]"
    and c: "concat (map snd fs) = map entry_of calls"
    and f: "list_all (\<lambda>c. length c = 101) (butlast (map snd fs))"
    by (simp_all add: rolling_inv_def)
  have d: "distinct (map fst fs)" unfolding k by (rule filenames_distinct)
  have l: "fs \<noteq> [] \<and> last (map snd fs) \<noteq> [] \<and> length (last (map snd fs)) \<le> 101 \<or> calls = []"
  proof (cases "fs = []")
    case True
    with c show ?thesis by simp
  next
    case False
    with i show ?thesis by (simp add: rolling_inv_def last_map)
  qed
  show ?thesis
    apply (rule exI [of _ rs])
    apply (rule exI [of _ fs])
    using a n k d c f l apply (intro conjI)
          apply assumption+
    done
qed

lemma add_rollover_exactly:
  "\<exists>rs' fs'. RollingPortofolioHistoryStore_add now snap rs fs = Inr (rs', fs') \<and>
     (if max_portofolio < length (history (store rs))
      then last_idx (file_repository rs') = last_idx (file_repository rs) + 1 \<and>
           storage (store rs') =
             get_filename (file_repository rs) (last_idx (file_repository rs) + 1)
      else file_repository rs' = file_repository rs \<and>
           storage (store rs') = storage (store rs))"
  by (simp add: RollingPortofolioHistoryStore_add_def new_file_def Let_def init_inner_store_def
      PortofolioHistoryStore_init_def JSONFileStorage_load_def PortofolioHistoryStore_add_def
      get_filename_def split: option.splits)

lemma example_store_fresh:
  "example_history_store [] =
     \<lparr>file_repository = example_repository,
        store = \<lparr>storage = get_filename example_repository (last_idx example_repository),
                 history = []\<rparr>\<rparr>"
  by (simp add: example_history_store_def get_filename_def path_join_def example_repository_def
      str_int_def str_nat.simps digit_def)

lemma example_repository_fresh:
  "RollingJSONFileRepository_init ''history'' ''history'' [] = Inr example_repository"
  by (simp add: fresh_repository example_repository_def)

lemma example_store_init:
  "RollingPortofolioHistoryStore_init example_repository [] = Inr (example_history_store [])"
  by (simp add: fresh_store example_store_fresh)

lemma example_run:
  "\<exists>rs fs. add_all calls (example_history_store []) [] = Inr (rs, fs) \<and>
     length fs = (length calls + 100) div 101"
proof -
  have "last_idx example_repository = 1" by (simp add: example_repository_def)
  from rolling_fresh_run [OF this, of calls] show ?thesis
    unfolding example_store_fresh by blast
qed

lemma example_filenames:
  "get_filename example_repository 1 = ''history/history.1.json''"
  "get_filename example_repository 2 = ''history/history.2.json''"
  by (simp_all add: get_filename_def path_join_def example_repository_def
      str_int_def str_nat.simps digit_def)


lemma ceiling_div_101: "\<lceil>real n / 101\<rceil> = int ((n + 100) div 101)"
proof -
  have "\<lceil>real n / 101\<rceil> = \<lceil>of_int (int n) / (of_int 101 :: real)\<rceil>" by simp
  also have "\<dots> = - (- int n div 101)" by (rule ceiling_divide_eq_div)
  also have "\<dots> = (int n + 100) div 101" by linarith
  also have "\<dots> = int ((n + 100) div 101)" by (simp add: zdiv_int)
  finally show ?thesis .
qed

lemma ceiling_div_100: "\<lceil>real n / 100\<rceil> = int ((n + 99) div 100)"
proof -
  have "\<lceil>real n / 100\<rceil> = \<lceil>of_int (int n) / (of_int 100 :: real)\<rceil>" by simp
  also have "\<dots> = - (- int n div 100)" by (rule ceiling_divide_eq_div)
  also have "\<dots> = (int n + 99) div 100" by linarith
  also have "\<dots> = int ((n + 99) div 100)" by (simp add: zdiv_int)
  finally show ?thesis .
qed

lemma file_count_near:
  "n \<le> 10200 \<Longrightarrow> \<bar>int ((n + 100) div 101) - int ((n + 99) div 100)\<bar> \<le> 1"
  by linarith

text \<open>
  Claim C2, amended. On a fresh history directory (no file), any sequence of \<open>N\<close> calls of
  \<open>add\<close> succeeds, and after it: the number of backing files is \<open>\<lceil>N / 101\<rceil>\<close>, which is
  within one of \<open>\<lceil>N / 100\<rceil>\<close> when \<open>N \<le> 10200\<close>; the files are those of the indices
  1, 2, ... in order, all different; read in that order they hold exactly the appended
  entries, each once, in the order of the calls; every file but the last holds 101 entries,
  and the last holds between 1 and 101. Moreover a single \<open>add\<close>, in any state, moves to
  the file of the next index exactly when the store in memory holds more than
  \<open>max_portofolio = 100\<close> entries, and otherwise keeps its file.
\<close>

theorem C2_rolling_log:
  "(\<exists>repo rs0 rs fs.
      RollingJSONFileRepository_init dir prefix [] = Inr repo \<and>
      RollingPortofolioHistoryStore_init repo [] = Inr rs0 \<and>
      add_all calls rs0 [] = Inr (rs, fs) \<and>
      int (length fs) = \<lceil>real (length calls) / 101\<rceil> \<and>
      (length calls \<le> 10200 \<longrightarrow>
         \<bar>int (length fs) - \<lceil>real (length calls) / 100\<rceil>\<bar> \<le> 1) \<and>
      map fst fs = map (get_filename repo) [1..int (length fs)] \<and>
      distinct (map fst fs) \<and>
      concat (map snd fs) = map entry_of calls \<and>
      list_all (\<lambda>c. length c = 101) (butlast (map snd fs)) \<and>
      (fs \<noteq> [] \<and> last (map snd fs) \<noteq> [] \<and> length (last (map snd fs)) \<le> 101 \<or>
       calls = [])) \<and>
   (\<exists>rs' fs'. RollingPortofolioHistoryStore_add now snap rs1 fs1 = Inr (rs', fs') \<and>
      (if max_portofolio < length (history (store rs1))
       then last_idx (file_repository rs') = last_idx (file_repository rs1) + 1 \<and>
            storage (store rs') =
              get_filename (file_repository rs1) (last_idx (file_repository rs1) + 1)
       else file_repository rs' = file_repository rs1 \<and>
            storage (store rs') = storage (store rs1)))"
proof (rule conjI)
  let ?repo = "\<lparr>directory = dir, file_prefix' = prefix, last_idx = 1\<rparr>"
  let ?rs0 = "\<lparr>file_repository = ?repo,
                store = \<lparr>storage = get_filename ?repo (last_idx ?repo), history = []\<rparr>\<rparr>"
  have one: "last_idx ?repo = 1" by simp
  from rolling_fresh_run [OF one, of calls] obtain rs fs where
    a: "add_all calls ?rs0 [] = Inr (rs, fs)"
    and n: "length fs = (length calls + 100) div 101"
    and k: "map fst fs = map (get_filename ?repo) [1..int (length fs)]"
    and d: "distinct (map fst fs)"
    and c: "concat (map snd fs) = map entry_of calls"
    and f: "list_all (\<lambda>c. length c = 101) (butlast (map snd fs))"
    and l: "fs \<noteq> [] \<and> last (map snd fs) \<noteq> [] \<and> length (last (map snd fs)) \<le> 101 \<or>
            calls = []"
    by blast
  have cnt: "int (length fs) = \<lceil>real (length calls) / 101\<rceil>"
    unfolding ceiling_div_101 n ..
  have nr: "length calls \<le> 10200 \<longrightarrow>
              \<bar>int (length fs) - \<lceil>real (length calls) / 100\<rceil>\<bar> \<le> 1"
    unfolding ceiling_div_100 n using file_count_near by blast
  show "\<exists>repo rs0 rs fs.
      RollingJSONFileRepository_init dir prefix [] = Inr repo \<and>
      RollingPortofolioHistoryStore_init repo [] = Inr rs0 \<and>
      add_all calls rs0 [] = Inr (rs, fs) \<and>
      int (length fs) = \<lceil>real (length calls) / 101\<rceil> \<and>
      (length calls \<le> 10200 \<longrightarrow>
         \<bar>int (length fs) - \<lceil>real (length calls) / 100\<rceil>\<bar> \<le> 1) \<and>
      map fst fs = map (get_filename repo) [1..int (length fs)] \<and>
      distinct (map fst fs) \<and>
      concat (map snd fs) = map entry_of calls \<and>
      list_all (\<lambda>c. length c = 101) (butlast (map snd fs)) \<and>
      (fs \<noteq> [] \<and> last (map snd fs) \<noteq> [] \<and> length (last (map snd fs)) \<le> 101 \<or>
       calls = [])"
    apply (rule exI [of _ ?repo])
    apply (rule exI [of _ ?rs0])
    apply (rule exI [of _ rs])
    apply (rule exI [of _ fs])
    apply (intro conjI)
             apply (rule fresh_repository)
            apply (rule fresh_store)
           apply (rule a)
          apply (rule cnt)
         apply (rule nr)
        apply (rule k)
       apply (rule d)
      apply (rule c)
     apply (rule f)
    apply (rule l)
    done
next
  show "\<exists>rs' fs'. RollingPortofolioHistoryStore_add now snap rs1 fs1 = Inr (rs', fs') \<and>
      (if max_portofolio < length (history (store rs1))
       then last_idx (file_repository rs') = last_idx (file_repository rs1) + 1 \<and>
            storage (store rs') =
              get_filename (file_repository rs1) (last_idx (file_repository rs1) + 1)
       else file_repository rs' = file_repository rs1 \<and>
            storage (store rs') = storage (store rs1))"
    by (rule add_rollover_exactly)
qed

text \<open>
  An instance: 102 calls on the fresh directory \<^verbatim>\<open>history\<close> leave two files, the first with
  101 entries and the second with one; two is \<open>\<lceil>102 / 101\<rceil>\<close>, and within one of
  \<open>\<lceil>102 / 100\<rceil>\<close>.
\<close>

theorem C2_rolling_log_witness:
  "map_sum id (map fst \<circ> snd)
     (add_all (replicate 102 (1700000000, [fund_a 1000 1100])) (example_history_store []) []) =
     Inr [''history/history.1.json'', ''history/history.2.json''] \<and>
   map_sum id (map (length \<circ> snd) \<circ> snd)
     (add_all (replicate 102 (1700000000, [fund_a 1000 1100])) (example_history_store []) []) =
     Inr [101, 1] \<and>
   length (replicate 102 (1700000000 :: int, [fund_a 1000 1100])) \<le> 10200 \<and>
   \<bar>2 - \<lceil>real (length (replicate 102 (1700000000 :: int, [fund_a 1000 1100]))) / 100\<rceil>\<bar> \<le> 1"
proof -
  let ?calls = "replicate 102 (1700000000 :: int, [fund_a 1000 1100])"
  from C2_rolling_log [of "''history''" "''history''" ?calls]
  obtain repo rs0 rs fs where
    r: "RollingJSONFileRepository_init ''history'' ''history'' [] = Inr repo"
    and s: "RollingPortofolioHistoryStore_init repo [] = Inr rs0"
    and a: "add_all ?calls rs0 [] = Inr (rs, fs)"
    and n: "int (length fs) = \<lceil>real (length ?calls) / 101\<rceil>"
    and b: "length ?calls \<le> 10200 \<longrightarrow> \<bar>int (length fs) - \<lceil>real (length ?calls) / 100\<rceil>\<bar> \<le> 1"
    and k: "map fst fs = map (get_filename repo) [1..int (length fs)]"
    and c: "concat (map snd fs) = map entry_of ?calls"
    and f: "list_all (\<lambda>c. length c = 101) (butlast (map snd fs))"
    by blast
  from r have repo: "repo = example_repository" by (simp add: example_repository_fresh)
  from s have rs0: "rs0 = example_history_store []" by (simp add: repo example_store_init)
  from n have two: "length fs = 2" by simp
  then obtain x y where fs: "fs = [x, y]"
    by (metis (no_types, opaque_lifting) One_nat_def Suc_1 Suc_length_conv length_0_conv)
  have up: "[1..2] = [1, 2 :: int]" by (simp add: upto.simps)
  from k have names: "map fst fs = [''history/history.1.json'', ''history/history.2.json'']"
    by (simp add: fs repo up example_filenames)
  from f have x: "length (snd x) = 101" by (simp add: fs)
  from c have "length (concat (map snd fs)) = 102" by simp
  then have y: "length (snd y) = 1" using x by (simp add: fs)
  have le: "length ?calls \<le> 10200" by simp
  from b le two have near: "\<bar>2 - \<lceil>real (length ?calls) / 100\<rceil>\<bar> \<le> 1" by simp
  from a names x y le near show ?thesis by (simp add: rs0 fs)
qed

text \<open>
  The claim as stated fails for long runs: a file holds 101 entries, so 10201 calls create
  101 files, and 101 is not within one of \<open>\<lceil>10201 / 100\<rceil> = 103\<close>.
\<close>

theorem C2_counterexample:
  "RollingJSONFileRepository_init ''history'' ''history'' [] = Inr example_repository \<and>
   RollingPortofolioHistoryStore_init example_repository [] = Inr (example_history_store []) \<and>
   map_sum id (length \<circ> snd)
     (add_all (replicate 10201 (1700000000, [fund_a 1000 1100])) (example_history_store []) []) =
     Inr 101 \<and>
   \<not> \<bar>101 - \<lceil>10201 / (100 :: real)\<rceil>\<bar> \<le> 1"
proof -
  from example_run [of "replicate 10201 (1700000000, [fund_a 1000 1100])"] obtain rs fs where
    "add_all (replicate 10201 (1700000000, [fund_a 1000 1100])) (example_history_store []) [] =
       Inr (rs, fs)"
    "length fs = 101"
    by auto
  then have "map_sum id (length \<circ> snd)
     (add_all (replicate 10201 (1700000000, [fund_a 1000 1100])) (example_history_store []) []) =
     Inr 101"
    by simp
  moreover have "\<not> \<bar>101 - \<lceil>10201 / (100 :: real)\<rceil>\<bar> \<le> 1" by simp
  ultimately show ?thesis
    using example_repository_fresh example_store_init by blast
qed

end
